theory Spec2Isabelle
  imports Complex_Main
begin

section \<open>Python values and exceptions\<close>

text \<open>
  The source is \<^verbatim>\<open>src/auth.py\<close>, class \<^verbatim>\<open>AuthManager\<close>. Python strings are modelled
  as \<^typ>\<open>string\<close>; a character is a code point below 256.

  Exceptions are values. An instance of \<^verbatim>\<open>Exception\<close> carries its class and its
  message (\<^verbatim>\<open>str(e)\<close>); these are what the handlers of the source catch
  (\<^verbatim>\<open>except Exception\<close>).
\<close>

datatype exn_class = TimeoutError | TypeError | ValueError | OtherException

datatype exn = Exn (exn_cls: exn_class) (exn_msg: string)

text \<open>
  What reaches the routine while it is suspended at an \<^verbatim>\<open>await\<close> can also be an
  exception outside \<^verbatim>\<open>Exception\<close>: the event loop delivers task cancellation
  (\<^verbatim>\<open>asyncio.CancelledError\<close>) there, and an interrupt or an interpreter exit shows
  up there too. No handler of the source catches these.
\<close>

datatype base_class = CancelledError | KeyboardInterrupt | SystemExit

datatype raised = Exception exn | BaseException base_class

text \<open>\<^verbatim>\<open>str(e)\<close> of an exception built from one message argument.\<close>

definition str_exn :: "exn \<Rightarrow> string" where
  "str_exn e = exn_msg e"

text \<open>
  A dynamically typed value stored in a content fragment: a string, or something else
  (\<^verbatim>\<open>None\<close>, a number, a boolean, any other object given by the name of its type).
\<close>

datatype pyval = PStr string | PNone | PInt int | PBool bool | PObject string

fun type_name :: "pyval \<Rightarrow> string" where
  "type_name (PStr _) = ''str''"
| "type_name PNone = ''NoneType''"
| "type_name (PInt _) = ''int''"
| "type_name (PBool _) = ''bool''"
| "type_name (PObject n) = n"

text \<open>Decimal rendering of a natural number, as in the message of \<^verbatim>\<open>str.join\<close>.\<close>

definition digit_char :: "nat \<Rightarrow> char" where
  "digit_char d = char_of (48 + d)"

fun show_nat :: "nat \<Rightarrow> string" where
  "show_nat n = (if n < 10 then [digit_char n] else show_nat (n div 10) @ [digit_char (n mod 10)])"

declare show_nat.simps [simp del]

section \<open>Text extraction: \<^verbatim>\<open>_contents_to_text\<close>\<close>

text \<open>
  A content fragment is either an object with attributes (what the protocol client
  returns) or a \<^verbatim>\<open>dict\<close>. A plain \<^verbatim>\<open>dict\<close> has no attribute \<^verbatim>\<open>type\<close>, so
  \<^verbatim>\<open>getattr(c, "type", None)\<close> is \<^verbatim>\<open>None\<close> for it.
\<close>

datatype fragment = Obj "string \<rightharpoonup> pyval" | Dict "string \<rightharpoonup> pyval"

text \<open>
  One iteration of the loop body: the value appended to \<^verbatim>\<open>parts\<close>, if any.
  \<^verbatim>\<open>
  if getattr(c, "type", None) == "text" and hasattr(c, "text"):
      parts.append(c.text)
  elif isinstance(c, dict) and c.get("type") == "text":
      parts.append(c.get("text", ""))
  \<close>
\<close>

fun part_of :: "fragment \<Rightarrow> pyval option" where
  "part_of (Obj a) =
     (if a ''type'' = Some (PStr ''text'') \<and> a ''text'' \<noteq> None then a ''text'' else None)"
| "part_of (Dict d) =
     (if d ''type'' = Some (PStr ''text'')
      then Some (case d ''text'' of Some v \<Rightarrow> v | None \<Rightarrow> PStr '''')
      else None)"

text \<open>The \<^verbatim>\<open>for\<close> loop, with \<^verbatim>\<open>parts\<close> as the accumulator.\<close>

fun collect_parts :: "fragment list \<Rightarrow> pyval list \<Rightarrow> pyval list" where
  "collect_parts [] parts = parts"
| "collect_parts (c # cs) parts =
     collect_parts cs (case part_of c of Some v \<Rightarrow> parts @ [v] | None \<Rightarrow> parts)"

text \<open>
  \<^verbatim>\<open>sep.join(parts)\<close>: raises \<^verbatim>\<open>TypeError\<close> at the first item that is not a string.
\<close>

fun join_strs :: "string \<Rightarrow> string list \<Rightarrow> string" where
  "join_strs sep [] = []"
| "join_strs sep [x] = x"
| "join_strs sep (x # y # ys) = x @ sep @ join_strs sep (y # ys)"

fun strs_of :: "nat \<Rightarrow> pyval list \<Rightarrow> exn + string list" where
  "strs_of i [] = Inr []"
| "strs_of i (PStr s # vs) =
     (case strs_of (Suc i) vs of Inl e \<Rightarrow> Inl e | Inr ss \<Rightarrow> Inr (s # ss))"
| "strs_of i (v # vs) =
     Inl (Exn TypeError (''sequence item '' @ show_nat i @ '': expected str instance, ''
                          @ type_name v @ '' found''))"

definition py_join :: "string \<Rightarrow> pyval list \<Rightarrow> exn + string" where
  "py_join sep parts = (case strs_of 0 parts of Inl e \<Rightarrow> Inl e | Inr ss \<Rightarrow> Inr (join_strs sep ss))"

text \<open>
  \<^verbatim>\<open>contents or []\<close>: a missing (\<^verbatim>\<open>None\<close>) content is the empty sequence.
\<close>

definition contents_to_text :: "fragment list option \<Rightarrow> exn + string" where
  "contents_to_text contents =
     py_join [CHR 0x0A] (collect_parts (case contents of None \<Rightarrow> [] | Some cs \<Rightarrow> cs) [])"

section \<open>Strings\<close>

text \<open>\<^verbatim>\<open>sub in s\<close> on strings: \<^verbatim>\<open>sub\<close> occurs at some position of \<^verbatim>\<open>s\<close>.\<close>

definition startswith :: "string \<Rightarrow> string \<Rightarrow> bool" where
  "startswith s p = (take (length p) s = p)"

fun contains :: "string \<Rightarrow> string \<Rightarrow> bool" where
  "contains sub [] = (sub = [])"
| "contains sub (c # cs) = (startswith (c # cs) sub \<or> contains sub cs)"

text \<open>
  \<^verbatim>\<open>str.isspace\<close> of one character, which is also what \<^verbatim>\<open>\s\<close> matches in a
  string pattern: below 256 these are the code points 9 to 13, 28 to 32, 133 and 160.
\<close>

definition py_isspace :: "char \<Rightarrow> bool" where
  "py_isspace c =
     (let n = (of_char c :: nat)
      in (9 \<le> n \<and> n \<le> 13) \<or> (28 \<le> n \<and> n \<le> 32) \<or> n = 133 \<or> n = 160)"

text \<open>
  \<^verbatim>\<open>str.lower\<close>: below 256 the upper-case letters are A to Z and the code points 192
  to 222 without 215; each maps to the code point 32 above it.
\<close>

definition lower_char :: "char \<Rightarrow> char" where
  "lower_char c =
     (let n = (of_char c :: nat)
      in if (65 \<le> n \<and> n \<le> 90) \<or> (192 \<le> n \<and> n \<le> 222 \<and> n \<noteq> 215)
         then char_of (n + 32) else c)"

definition py_lower :: "string \<Rightarrow> string" where
  "py_lower s = map lower_char s"

section \<open>Configuration: \<^verbatim>\<open>__init__\<close>\<close>

text \<open>
  A Python float: a finite value, which is a rational number, or one of the three
  special values. The source computes with floats only in \<^verbatim>\<open>time.time() - start\<close>;
  for two readings of the clock that lie within a factor of two of each other, as Unix
  time stamps do, that subtraction is exact.
\<close>

datatype pyfloat = Finite rat | PosInf | NegInf | NaN

text \<open>The helper process handle is the process id of the spawned helper.\<close>

type_synonym pid = nat

record auth_manager =
  server_dir :: string
  auth_server_process :: "pid option"
  timeout_seconds :: int
  poll_interval_seconds :: pyfloat
  start_auth_server :: bool
  browser_open :: bool

text \<open>\<^verbatim>\<open>os.getenv(key, default)\<close> on the process environment.\<close>

definition getenv :: "(string \<rightharpoonup> string) \<Rightarrow> string \<Rightarrow> string \<Rightarrow> string" where
  "getenv environ key dflt = (case environ key of Some v \<Rightarrow> v | None \<Rightarrow> dflt)"

text \<open>
  The constructor. Its four keyword arguments are optional; \<^verbatim>\<open>int\<close>, \<^verbatim>\<open>float\<close>
  and \<^verbatim>\<open>bool\<close> of an argument of the annotated type give the argument back. The
  conditional expressions evaluate the environment only when the argument is absent,
  in the order of the source, and the first failing conversion raises.
  \<^verbatim>\<open>int\<close> and \<^verbatim>\<open>float\<close> of a string are parameters of the model (\<open>py_int\<close>,
  \<open>py_float\<close>): what they accept and return is the interpreter's business (its limit
  on the number of digits, its rounding to binary).
\<close>

definition init ::
  "(string \<Rightarrow> exn + int) \<Rightarrow> (string \<Rightarrow> exn + pyfloat) \<Rightarrow> (string \<rightharpoonup> string) \<Rightarrow> string \<Rightarrow>
   int option \<Rightarrow> pyfloat option \<Rightarrow> bool option \<Rightarrow> bool option \<Rightarrow> exn + auth_manager" where
  "init py_int py_float environ sdir timeout_arg poll_arg start_arg browser_arg =
     (case (case timeout_arg of
              None \<Rightarrow> py_int (getenv environ ''AUTH_TIMEOUT_SECONDS'' ''180'')
            | Some t \<Rightarrow> Inr t) of
        Inl e \<Rightarrow> Inl e
      | Inr t \<Rightarrow>
         (case (case poll_arg of
                  None \<Rightarrow> py_float (getenv environ ''AUTH_POLL_INTERVAL_SECONDS'' ''2'')
                | Some p \<Rightarrow> Inr p) of
            Inl e \<Rightarrow> Inl e
          | Inr p \<Rightarrow>
             Inr \<lparr> server_dir = sdir,
                   auth_server_process = None,
                   timeout_seconds = t,
                   poll_interval_seconds = p,
                   start_auth_server =
                     (case start_arg of
                        None \<Rightarrow> py_lower (getenv environ ''START_AUTH_SERVER'' ''true'') \<noteq> ''false''
                      | Some b \<Rightarrow> b),
                   browser_open =
                     (case browser_arg of
                        None \<Rightarrow> py_lower (getenv environ ''BROWSER_OPEN'' ''true'') \<noteq> ''false''
                      | Some b \<Rightarrow> b) \<rparr>))"

section \<open>URL extraction: \<^verbatim>\<open>re.search(r"https?://[^\s]+", text)\<close>\<close>

text \<open>
  The pattern is the literal \<^verbatim>\<open>http\<close>, an optional \<^verbatim>\<open>s\<close> (tried first, then left
  out on backtracking), the literal \<^verbatim>\<open>://\<close> and a greedy run of at least one
  character that is not whitespace. \<^verbatim>\<open>re.search\<close> tries the start positions from
  left to right and returns the match at the first position that has one.
\<close>

fun strip_lit :: "string \<Rightarrow> string \<Rightarrow> string option" where
  "strip_lit [] s = Some s"
| "strip_lit (p # ps) [] = None"
| "strip_lit (p # ps) (c # cs) = (if p = c then strip_lit ps cs else None)"

definition match_tail :: "string \<Rightarrow> string option" where
  "match_tail s =
     (case strip_lit ''://'' s of
        None \<Rightarrow> None
      | Some r \<Rightarrow>
         (let run = takeWhile (\<lambda>c. \<not> py_isspace c) r
          in if run = [] then None else Some (''://'' @ run)))"

definition match_url_here :: "string \<Rightarrow> string option" where
  "match_url_here s =
     (case strip_lit ''http'' s of
        None \<Rightarrow> None
      | Some r \<Rightarrow>
         (case (case strip_lit ''s'' r of
                  None \<Rightarrow> None
                | Some r' \<Rightarrow> map_option (\<lambda>t. ''s'' @ t) (match_tail r')) of
            Some t \<Rightarrow> Some (''http'' @ t)
          | None \<Rightarrow> map_option (\<lambda>t. ''http'' @ t) (match_tail r)))"

fun search_url :: "string \<Rightarrow> string option" where
  "search_url [] = None"
| "search_url (c # cs) =
     (case match_url_here (c # cs) of Some u \<Rightarrow> Some u | None \<Rightarrow> search_url cs)"

section \<open>The world outside the coordinator\<close>

text \<open>
  \<^verbatim>\<open>os.path.join(a, b)\<close> on POSIX for a relative \<^verbatim>\<open>b\<close>: a separator is put
  between the two unless \<^verbatim>\<open>a\<close> is empty or already ends with one.
\<close>

definition path_join :: "string \<Rightarrow> string \<Rightarrow> string" where
  "path_join a b = (if a = [] \<or> last a = CHR ''/'' then a @ b else a @ ''/'' @ b)"

text \<open>The response of a remote call; \<^verbatim>\<open>getattr(r, "content", None)\<close> reads it.\<close>

datatype tool_result = ToolResult (content: "fragment list option")

text \<open>The request handed to \<^verbatim>\<open>subprocess.Popen\<close> (both output streams are discarded).\<close>

record spawn_req =
  argv :: "string list"
  spawn_env :: "string \<rightharpoonup> string"
  cwd :: string

text \<open>What the coordinator does to the outside, in order.\<close>

datatype event =
    CallTool string "(string \<times> pyval) list"
  | Print string
  | Popen spawn_req
  | SyncSleep rat
  | AsyncSleep pyfloat
  | BrowserOpen string
  | Terminate pid

text \<open>
  The state of the outside: the wall clock (\<^verbatim>\<open>time.time()\<close>, in seconds), the number
  of remote calls made so far, the events so far, the helper processes that are running,
  and the next free process id. The clock moves while the routine waits: during a remote
  call and during a sleep, each for as long as the collaborators say. The time the
  interpreter spends between two waits is counted into the waits, so in a run that
  happens a sleep and the remote call after it take more than no time together, also
  when the delay asked for is zero; the properties that depend on it assume it.
\<close>

record world =
  clock :: rat
  ncalls :: nat
  trace :: "event list"
  live :: "pid list"
  next_pid :: pid

text \<open>
  The collaborators, as functions the model is given.
  \<^item> The remote session: the outcome of the \<open>n\<close>-th call and the time the call takes.
  \<^item> The event loop: how much longer than asked the sleep before the \<open>n\<close>-th call lasts
    (\<open>oversleep\<close>), whether that sleep is interrupted, and whether this interpreter's
    \<^verbatim>\<open>asyncio.sleep\<close> refuses a delay that is not a number (Python 3.13 and later
    raise \<^verbatim>\<open>ValueError\<close>, earlier ones return).
  \<^item> The file system and the process environment.
  \<^item> The operating system: whether a spawn, a browser launch or a termination request
    raises, and whether a process that was sent the termination signal has ended by the
    time the request returns (\<^verbatim>\<open>Popen.terminate()\<close> only sends the signal).
  The synchronous collaborators fail with instances of \<^verbatim>\<open>Exception\<close>.
\<close>

record env =
  call_tool :: "nat \<Rightarrow> string \<Rightarrow> (string \<times> pyval) list \<Rightarrow> rat \<times> (raised + tool_result)"
  oversleep :: "nat \<Rightarrow> rat"
  sleep_interrupted :: "nat \<Rightarrow> base_class option"
  sleep_rejects_nan :: bool
  path_exists :: "string \<Rightarrow> bool"
  os_environ :: "string \<rightharpoonup> string"
  popen_raises :: "spawn_req \<Rightarrow> exn option"
  browser_raises :: "string \<Rightarrow> exn option"
  terminate_raises :: "pid \<Rightarrow> exn option"
  ends_on_sigterm :: "pid \<Rightarrow> bool"

text \<open>
  A statement either completes with a value or raises; either way it leaves a world.
\<close>

datatype 'a res = Ok 'a | Raise raised

type_synonym 'a io = "world \<Rightarrow> 'a res \<times> world"

definition bind_io :: "'a io \<Rightarrow> ('a \<Rightarrow> 'b io) \<Rightarrow> 'b io" where
  "bind_io f g w = (case f w of (Ok v, w') \<Rightarrow> g v w' | (Raise e, w') \<Rightarrow> (Raise e, w'))"

text \<open>
  \<^verbatim>\<open>try: body  except Exception as e: handler(e)\<close>: the handler runs for an instance
  of \<^verbatim>\<open>Exception\<close>; anything else passes through.
\<close>

definition try_except :: "'a io \<Rightarrow> (exn \<Rightarrow> 'a io) \<Rightarrow> 'a io" where
  "try_except body handler w =
     (case body w of
        (Ok v, w') \<Rightarrow> (Ok v, w')
      | (Raise (Exception e), w') \<Rightarrow> handler e w'
      | (Raise (BaseException c), w') \<Rightarrow> (Raise (BaseException c), w'))"

definition emit :: "event \<Rightarrow> world \<Rightarrow> world" where
  "emit ev w = w\<lparr>trace := trace w @ [ev]\<rparr>"

text \<open>\<^verbatim>\<open>print(a, b)\<close> writes the two, separated by a space.\<close>

definition print1 :: "string \<Rightarrow> unit io" where
  "print1 a w = (Ok (), emit (Print a) w)"

definition print2 :: "string \<Rightarrow> string \<Rightarrow> unit io" where
  "print2 a b w = (Ok (), emit (Print (a @ '' '' @ b)) w)"

text \<open>\<^verbatim>\<open>s or dflt\<close> on a string: the empty string is false.\<close>

definition str_or :: "string \<Rightarrow> string \<Rightarrow> string" where
  "str_or s dflt = (if s = [] then dflt else s)"

text \<open>\<^verbatim>\<open>time.sleep(d)\<close> for a positive \<^verbatim>\<open>d\<close>.\<close>

definition time_sleep :: "rat \<Rightarrow> unit io" where
  "time_sleep d w = (Ok (), emit (SyncSleep d) (w\<lparr>clock := clock w + d\<rparr>))"

text \<open>
  \<^verbatim>\<open>await asyncio.sleep(d)\<close>. A delay that is zero or negative yields to the event
  loop once; a positive finite delay lasts at least that long; an infinite delay never
  ends, so the sleep has no result unless it is interrupted. A delay that is not a number
  is refused before the sleep starts, or passes for no delay, as the interpreter has it.
\<close>

definition asyncio_sleep :: "env \<Rightarrow> pyfloat \<Rightarrow> world \<Rightarrow> (unit res \<times> world) option" where
  "asyncio_sleep E d w =
     (let w1 = emit (AsyncSleep d) w;
          over = oversleep E (ncalls w)
      in if d = NaN \<and> sleep_rejects_nan E
         then Some (Raise (Exception (Exn ValueError ''Invalid delay: NaN not supported'')), w1)
         else
           (case sleep_interrupted E (ncalls w) of
              Some c \<Rightarrow> Some (Raise (BaseException c), w1)
            | None \<Rightarrow>
               (case d of
                  Finite x \<Rightarrow> Some (Ok (), w1\<lparr>clock := clock w1 + max x 0 + over\<rparr>)
                | NegInf \<Rightarrow> Some (Ok (), w1\<lparr>clock := clock w1 + over\<rparr>)
                | NaN \<Rightarrow> Some (Ok (), w1\<lparr>clock := clock w1 + over\<rparr>)
                | PosInf \<Rightarrow> None)))"

text \<open>
  \<^verbatim>\<open>await session.call_tool(name, args)\<close>: the session answers the call, which takes
  the time the session says.
\<close>

definition await_call_tool :: "env \<Rightarrow> string \<Rightarrow> (string \<times> pyval) list \<Rightarrow> tool_result io" where
  "await_call_tool E name args w =
     (let (took, r) = call_tool E (ncalls w) name args;
          w' = emit (CallTool name args) (w\<lparr>clock := clock w + took, ncalls := Suc (ncalls w)\<rparr>)
      in case r of Inl e \<Rightarrow> (Raise e, w') | Inr v \<Rightarrow> (Ok v, w'))"

text \<open>A pure computation that may raise, such as \<^verbatim>\<open>_contents_to_text\<close>.\<close>

definition lift_io :: "exn + 'a \<Rightarrow> 'a io" where
  "lift_io r w = (case r of Inl e \<Rightarrow> (Raise (Exception e), w) | Inr v \<Rightarrow> (Ok v, w))"

definition return_io :: "'a \<Rightarrow> 'a io" where
  "return_io v w = (Ok v, w)"

section \<open>Helper process: \<^verbatim>\<open>_start_auth_server_if_available\<close> and \<^verbatim>\<open>stop\<close>\<close>

text \<open>\<^verbatim>\<open>d.get(k, dflt)\<close> and \<^verbatim>\<open>d.setdefault(k, v)\<close> on a dictionary.\<close>

definition dict_get :: "(string \<rightharpoonup> string) \<Rightarrow> string \<Rightarrow> string \<Rightarrow> string" where
  "dict_get d k dflt = (case d k of Some v \<Rightarrow> v | None \<Rightarrow> dflt)"

definition setdefault :: "(string \<rightharpoonup> string) \<Rightarrow> string \<Rightarrow> string \<Rightarrow> (string \<rightharpoonup> string)" where
  "setdefault d k v = (case d k of Some _ \<Rightarrow> d | None \<Rightarrow> d(k \<mapsto> v))"

text \<open>
  The environment of the helper:
  \<^verbatim>\<open>
  env = os.environ.copy()
  env.setdefault("MS_CLIENT_ID", env.get("OUTLOOK_CLIENT_ID", ""))
  env.setdefault("MS_CLIENT_SECRET", env.get("OUTLOOK_CLIENT_SECRET", ""))
  \<close>
\<close>

definition helper_env :: "(string \<rightharpoonup> string) \<Rightarrow> (string \<rightharpoonup> string)" where
  "helper_env environ =
     (let e0 = environ;
          e1 = setdefault e0 ''MS_CLIENT_ID'' (dict_get e0 ''OUTLOOK_CLIENT_ID'' []);
          e2 = setdefault e1 ''MS_CLIENT_SECRET'' (dict_get e1 ''OUTLOOK_CLIENT_SECRET'' [])
      in e2)"

text \<open>
  \<^verbatim>\<open>subprocess.Popen(...)\<close>: either raises, or a new process runs and its handle is
  returned.
\<close>

definition subprocess_popen :: "env \<Rightarrow> spawn_req \<Rightarrow> pid io" where
  "subprocess_popen E req w =
     (let w1 = emit (Popen req) w
      in case popen_raises E req of
           Some e \<Rightarrow> (Raise (Exception e), w1)
         | None \<Rightarrow> (Ok (next_pid w1),
                     w1\<lparr>live := live w1 @ [next_pid w1], next_pid := Suc (next_pid w1)\<rparr>))"

text \<open>
  \<^verbatim>\<open>p.terminate()\<close>: either raises and the process is left as it was, or the
  termination signal is sent. The request does not wait: whether the process has
  ended when it returns is up to the process.
\<close>

definition proc_terminate :: "env \<Rightarrow> pid \<Rightarrow> unit io" where
  "proc_terminate E p w =
     (let w1 = emit (Terminate p) w
      in case terminate_raises E p of
           Some e \<Rightarrow> (Raise (Exception e), w1)
         | None \<Rightarrow>
             (Ok (), if ends_on_sigterm E p then w1\<lparr>live := removeAll p (live w1)\<rparr> else w1))"

text \<open>The methods return the coordinator (\<^verbatim>\<open>self\<close>) as they leave it.\<close>

definition start_auth_server_if_available :: "env \<Rightarrow> auth_manager \<Rightarrow> auth_manager io" where
  "start_auth_server_if_available E m w =
     (if auth_server_process m \<noteq> None then (Ok m, w)
      else
        let auth_server_path = path_join (server_dir m) ''outlook-auth-server.js''
        in if \<not> path_exists E auth_server_path then (Ok m, w)
           else
             try_except
               (bind_io (print2 ''Starting local auth server:'' auth_server_path) (\<lambda>_.
                bind_io (subprocess_popen E
                           \<lparr> argv = [''node'', auth_server_path],
                             spawn_env = helper_env (os_environ E),
                             cwd = server_dir m \<rparr>) (\<lambda>p.
                bind_io (time_sleep (1 / 2)) (\<lambda>_.
                return_io (m\<lparr>auth_server_process := Some p\<rparr>)))))
               (\<lambda>e. bind_io (print2 ''Failed to start auth server:'' (str_exn e)) (\<lambda>_.
                     return_io m))
               w)"

definition stop :: "env \<Rightarrow> auth_manager \<Rightarrow> auth_manager io" where
  "stop E m w =
     (case auth_server_process m of
        None \<Rightarrow> (Ok m, w)
      | Some p \<Rightarrow>
         bind_io (try_except (proc_terminate E p) (\<lambda>e. return_io ())) (\<lambda>_.
         return_io (m\<lparr>auth_server_process := None\<rparr>)) w)"

section \<open>The orchestration: \<^verbatim>\<open>ensure_authenticated\<close>\<close>

text \<open>
  Phase 1, the initial status check. The value says whether the routine returns here.
\<close>

definition initial_status_check :: "env \<Rightarrow> bool io" where
  "initial_status_check E =
     try_except
       (bind_io (await_call_tool E ''check-auth-status'' []) (\<lambda>status.
        bind_io (lift_io (contents_to_text (content status))) (\<lambda>status_text.
          if status_text \<noteq> [] \<and> contains ''Authenticated'' status_text
          then bind_io (print2 ''Authentication status:'' status_text) (\<lambda>_. return_io True)
          else bind_io (print2 ''Authentication status:''
                          (str_or status_text ''Unknown/Not authenticated'')) (\<lambda>_.
               return_io False))))
       (\<lambda>e. bind_io (print2 ''Warning: check-auth-status failed:'' (str_exn e)) (\<lambda>_.
             return_io False))"

text \<open>\<^verbatim>\<open>webbrowser.open(url)\<close>\<close>

definition webbrowser_open :: "env \<Rightarrow> string \<Rightarrow> unit io" where
  "webbrowser_open E url w =
     (let w1 = emit (BrowserOpen url) w
      in case browser_raises E url of
           Some e \<Rightarrow> (Raise (Exception e), w1)
         | None \<Rightarrow> (Ok (), w1))"

text \<open>Phase 3, the authentication trigger.\<close>

definition trigger_authentication :: "env \<Rightarrow> auth_manager \<Rightarrow> unit io" where
  "trigger_authentication E m =
     try_except
       (bind_io (await_call_tool E ''authenticate'' [(''force'', PBool True)]) (\<lambda>auth.
        bind_io (lift_io (contents_to_text (content auth))) (\<lambda>auth_text.
        bind_io (print2 ''Authenticate tool response:'' (str_or auth_text ''<no text>'')) (\<lambda>_.
          case search_url (str_or auth_text []) of
            Some auth_url \<Rightarrow>
              bind_io (print2 ''Opening authentication URL:'' auth_url) (\<lambda>_.
                if browser_open m
                then try_except (webbrowser_open E auth_url)
                       (\<lambda>e. print2 ''Could not open browser automatically:'' (str_exn e))
                else return_io ())
          | None \<Rightarrow>
              print1 ''Could not find authentication URL in tool response. Please check the server logs.''))))
       (\<lambda>e. print2 ''Error calling authenticate tool:'' (str_exn e))"

text \<open>
  The polled status check, the \<^verbatim>\<open>try\<close> statement in the body of the loop. The value
  says whether the routine returns here.
\<close>

definition polled_status_check :: "env \<Rightarrow> bool io" where
  "polled_status_check E =
     try_except
       (bind_io (await_call_tool E ''check-auth-status'' []) (\<lambda>status.
        bind_io (lift_io (contents_to_text (content status))) (\<lambda>status_text.
          if status_text \<noteq> [] \<and> contains ''Authenticated'' status_text
          then bind_io (print2 ''Authentication completed:'' status_text) (\<lambda>_. return_io True)
          else bind_io (print2 ''Waiting for authentication...''
                          (str_or status_text ''Not authenticated yet'')) (\<lambda>_.
               return_io False))))
       (\<lambda>e. bind_io (print2 ''Polling error:'' (str_exn e)) (\<lambda>_. return_io False))"

text \<open>
  One iteration of the poll loop: the sleep, which is outside the \<^verbatim>\<open>try\<close>, and then
  the polled status check. It has no result when the sleep never ends.
\<close>

definition poll_iteration :: "env \<Rightarrow> auth_manager \<Rightarrow> world \<Rightarrow> (bool res \<times> world) option" where
  "poll_iteration E m w =
     (case asyncio_sleep E (poll_interval_seconds m) w of
        None \<Rightarrow> None
      | Some (Raise e, w') \<Rightarrow> Some (Raise e, w')
      | Some (Ok _, w') \<Rightarrow> Some (polled_status_check E w'))"

definition timeout_error :: raised where
  "timeout_error =
     Exception (Exn TimeoutError
       ''Authentication timed out. Please complete the sign-in in your browser and try again.'')"

text \<open>
  Phase 4, the poll loop. It may run forever, so its result is optional: \<open>None\<close> is
  the loop that never ends.
\<close>

partial_function (option) poll_loop ::
  "env \<Rightarrow> auth_manager \<Rightarrow> rat \<Rightarrow> world \<Rightarrow> (unit res \<times> world) option" where
  "poll_loop E m start w =
     (if clock w - start < of_int (timeout_seconds m)
      then (case poll_iteration E m w of
              None \<Rightarrow> None
            | Some (Raise e, w') \<Rightarrow> Some (Raise e, w')
            | Some (Ok authed, w') \<Rightarrow>
                if authed then Some (Ok (), w') else poll_loop E m start w')
      else Some (Raise timeout_error, w))"

definition ensure_authenticated ::
  "env \<Rightarrow> auth_manager \<Rightarrow> world \<Rightarrow> (unit res \<times> auth_manager \<times> world) option" where
  "ensure_authenticated E m w =
     (case initial_status_check E w of
        (Raise e, w1) \<Rightarrow> Some (Raise e, m, w1)
      | (Ok True, w1) \<Rightarrow> Some (Ok (), m, w1)
      | (Ok False, w1) \<Rightarrow>
         (case (if start_auth_server m then start_auth_server_if_available E m
                else return_io m) w1 of
            (Raise e, w2) \<Rightarrow> Some (Raise e, m, w2)
          | (Ok m2, w2) \<Rightarrow>
             (case trigger_authentication E m2 w2 of
                (Raise e, w3) \<Rightarrow> Some (Raise e, m2, w3)
              | (Ok _, w3) \<Rightarrow>
                 map_option (\<lambda>(r, w4). (r, m2, w4)) (poll_loop E m2 (clock w3) w3))))"

section \<open>Vocabulary of the properties\<close>

subsection \<open>Text extraction\<close>

fun type_tag :: "fragment \<Rightarrow> pyval option" where
  "type_tag (Obj a) = a ''type''"
| "type_tag (Dict d) = d ''type''"

fun text_field :: "fragment \<Rightarrow> pyval option" where
  "text_field (Obj a) = a ''text''"
| "text_field (Dict d) = d ''text''"

definition str_of :: "pyval \<Rightarrow> string" where
  "str_of v = (case v of PStr s \<Rightarrow> s | _ \<Rightarrow> [])"

text \<open>
  The specification's reading: a fragment is textual when its type tag is \<^verbatim>\<open>"text"\<close>
  and it has a text field, whatever its shape; the text values of the textual fragments
  are joined with newlines.
\<close>

definition spec_textual :: "fragment \<Rightarrow> bool" where
  "spec_textual c = (type_tag c = Some (PStr ''text'') \<and> text_field c \<noteq> None)"

definition spec_contents_to_text :: "fragment list option \<Rightarrow> string" where
  "spec_contents_to_text contents =
     join_strs [CHR 0x0A]
       (map (\<lambda>c. str_of (the (text_field c)))
          (filter spec_textual (case contents of None \<Rightarrow> [] | Some cs \<Rightarrow> cs)))"

text \<open>
  What the code keeps: a textual fragment in the sense above, and also a \<^verbatim>\<open>dict\<close>
  whose type tag is \<^verbatim>\<open>"text"\<close> and that has no text field; the latter counts as the
  empty string.
\<close>

definition kept :: "fragment \<Rightarrow> bool" where
  "kept c = (spec_textual c \<or> (\<exists>d. c = Dict d \<and> d ''type'' = Some (PStr ''text'')))"

definition text_value :: "fragment \<Rightarrow> pyval" where
  "text_value c = (case text_field c of Some v \<Rightarrow> v | None \<Rightarrow> PStr [])"

definition is_str :: "pyval \<Rightarrow> bool" where
  "is_str v = (case v of PStr _ \<Rightarrow> True | _ \<Rightarrow> False)"

subsection \<open>Configuration\<close>

text \<open>The string is \<^verbatim>\<open>false\<close> written in any mix of upper and lower case.\<close>

definition false_any_case :: "string \<Rightarrow> bool" where
  "false_any_case s =
     (case s of
        [a, b, c, d, e] \<Rightarrow>
          (a = CHR ''f'' \<or> a = CHR ''F'') \<and> (b = CHR ''a'' \<or> b = CHR ''A'') \<and>
          (c = CHR ''l'' \<or> c = CHR ''L'') \<and> (d = CHR ''s'' \<or> d = CHR ''S'') \<and>
          (e = CHR ''e'' \<or> e = CHR ''E'')
      | _ \<Rightarrow> False)"

text \<open>
  Conversions for closed examples: an \<^verbatim>\<open>int\<close> that reads the default
  \<^verbatim>\<open>180\<close> and nothing else, and a \<^verbatim>\<open>float\<close> that accepts nothing.
\<close>

definition plain_int :: "string \<Rightarrow> exn + int" where
  "plain_int s =
     (if s = ''180'' then Inr 180
      else Inl (Exn ValueError (''invalid literal for int() with base 10: '' @ s)))"

definition no_float :: "string \<Rightarrow> exn + pyfloat" where
  "no_float s = Inl (Exn ValueError (''could not convert string to float: '' @ s))"

subsection \<open>Events and status reports\<close>

fun is_call :: "string \<Rightarrow> event \<Rightarrow> bool" where
  "is_call n (CallTool n' _) = (n' = n)"
| "is_call n _ = False"

fun is_async_sleep :: "event \<Rightarrow> bool" where
  "is_async_sleep (AsyncSleep _) = True"
| "is_async_sleep _ = False"

fun is_popen :: "event \<Rightarrow> bool" where
  "is_popen (Popen _) = True"
| "is_popen _ = False"


text \<open>The world after a remote call that took the given time.\<close>

definition called :: "string \<Rightarrow> (string \<times> pyval) list \<Rightarrow> rat \<Rightarrow> world \<Rightarrow> world" where
  "called name args took w =
     w\<lparr>clock := clock w + took, ncalls := Suc (ncalls w),
       trace := trace w @ [CallTool name args]\<rparr>"

text \<open>The world after a line of progress output.\<close>

definition logged :: "string \<Rightarrow> world \<Rightarrow> world" where
  "logged line w = w\<lparr>trace := trace w @ [Print line]\<rparr>"

text \<open>
  The world after a sleep on the event loop that was asked for the delay \<open>d\<close> and
  lasted \<open>t\<close>.
\<close>

definition slept :: "pyfloat \<Rightarrow> rat \<Rightarrow> world \<Rightarrow> world" where
  "slept d t w = w\<lparr>clock := clock w + t, trace := trace w @ [AsyncSleep d]\<rparr>"

text \<open>The events between two worlds of one run.\<close>

definition events_since :: "world \<Rightarrow> world \<Rightarrow> event list" where
  "events_since w w' = drop (length (trace w)) (trace w')"



text \<open>
  A status check reports an authenticated status when it answers and the text of the
  answer contains \<^verbatim>\<open>Authenticated\<close>.
\<close>

definition reports_authenticated :: "raised + tool_result \<Rightarrow> bool" where
  "reports_authenticated r =
     (case r of
        Inl e \<Rightarrow> False
      | Inr res \<Rightarrow>
         (case contents_to_text (content res) of
            Inl e \<Rightarrow> False
          | Inr s \<Rightarrow> contains ''Authenticated'' s))"

text \<open>No status check ever reports an authenticated status.\<close>

definition never_authenticated :: "env \<Rightarrow> bool" where
  "never_authenticated E =
     (\<forall>n. \<not> reports_authenticated (snd (call_tool E n ''check-auth-status'' [])))"

text \<open>
  No wait of the run is interrupted: no remote call and no sleep ends with an exception
  outside \<^verbatim>\<open>Exception\<close>.
\<close>

definition uninterrupted :: "env \<Rightarrow> bool" where
  "uninterrupted E =
     ((\<forall>n name args c. snd (call_tool E n name args) \<noteq> Inl (BaseException c))
      \<and> (\<forall>n. sleep_interrupted E n = None))"

text \<open>
  The time a poll iteration takes beyond the delay it asks for: what the sleep before
  the \<open>n\<close>-th call oversleeps, and the time the polled status check takes.
\<close>

definition iteration_overhead :: "env \<Rightarrow> nat \<Rightarrow> rat" where
  "iteration_overhead E n = oversleep E n + fst (call_tool E n ''check-auth-status'' [])"

definition overhead_within :: "env \<Rightarrow> rat \<Rightarrow> rat \<Rightarrow> bool" where
  "overhead_within E lo hi =
     (\<forall>n. lo \<le> iteration_overhead E n \<and> iteration_overhead E n \<le> hi)"

subsection \<open>URL extraction\<close>


subsection \<open>Runs of a coordinator\<close>



text \<open>The request \<^verbatim>\<open>_start_auth_server_if_available\<close> hands to \<^verbatim>\<open>Popen\<close>.\<close>

definition helper_req :: "env \<Rightarrow> auth_manager \<Rightarrow> spawn_req" where
  "helper_req E m =
     \<lparr> argv = [''node'', path_join (server_dir m) ''outlook-auth-server.js''],
       spawn_env = helper_env (os_environ E),
       cwd = server_dir m \<rparr>"



text \<open>A world in which nothing has happened yet.\<close>

definition fresh_world :: world where
  "fresh_world = \<lparr> clock = 0, ncalls = 0, trace = [], live = [], next_pid = 0 \<rparr>"

text \<open>
  Collaborators for closed examples. The session of \<open>silent_env\<close> fails every call at
  once; no sleep oversleeps or is interrupted; its helper script exists; spawning,
  browsing and terminating succeed, and a terminated process ends at once.
  \<open>denying_env\<close> differs in that every termination request raises, \<open>lingering_env\<close> in
  that a process outlives its termination request, and \<open>cancelled_env\<close> in that every
  remote call is cancelled.
\<close>

definition silent_session ::
  "nat \<Rightarrow> string \<Rightarrow> (string \<times> pyval) list \<Rightarrow> rat \<times> (raised + tool_result)" where
  "silent_session n name args = (0, Inl (Exception (Exn OtherException ''connection closed'')))"


definition no_oversleep :: "nat \<Rightarrow> rat" where
  "no_oversleep n = 0"

definition never_interrupted :: "nat \<Rightarrow> base_class option" where
  "never_interrupted n = None"

definition always_ends :: "pid \<Rightarrow> bool" where
  "always_ends p = True"


definition always_exists :: "string \<Rightarrow> bool" where
  "always_exists p = True"

definition never_raises :: "'a \<Rightarrow> exn option" where
  "never_raises x = None"

definition always_raises :: "'a \<Rightarrow> exn option" where
  "always_raises x = Some (Exn OtherException ''not permitted'')"

definition silent_env :: env where
  "silent_env =
     \<lparr> call_tool = silent_session, oversleep = no_oversleep,
       sleep_interrupted = never_interrupted, sleep_rejects_nan = True,
       path_exists = always_exists, os_environ = Map.empty,
       popen_raises = never_raises, browser_raises = never_raises,
       terminate_raises = never_raises, ends_on_sigterm = always_ends \<rparr>"

definition denying_env :: env where
  "denying_env = silent_env\<lparr>terminate_raises := always_raises\<rparr>"



text \<open>
  A session that answers every call at once with one text fragment saying
  \<^verbatim>\<open>Authenticated\<close>, and the collaborators around it.
\<close>

definition authenticated_result :: tool_result where
  "authenticated_result =
     ToolResult (Some [Obj [''type'' \<mapsto> PStr ''text'', ''text'' \<mapsto> PStr ''Authenticated'']])"

definition authenticated_session ::
  "nat \<Rightarrow> string \<Rightarrow> (string \<times> pyval) list \<Rightarrow> rat \<times> (raised + tool_result)" where
  "authenticated_session n name args = (0, Inr authenticated_result)"

definition authenticated_env :: env where
  "authenticated_env = silent_env\<lparr>call_tool := authenticated_session\<rparr>"

text \<open>
  A coordinator as the constructor leaves it, with every option given and a finite poll
  interval.
\<close>

definition manager0 :: "int \<Rightarrow> rat \<Rightarrow> auth_manager" where
  "manager0 t p =
     \<lparr> server_dir = ''/srv'', auth_server_process = None, timeout_seconds = t,
       poll_interval_seconds = Finite p, start_auth_server = True, browser_open = True \<rparr>"

subsection \<open>The state of a run between its phases\<close>

text \<open>
  Phase 2 as \<^verbatim>\<open>ensure_authenticated\<close> runs it: the launch when it is configured; the
  coordinator and the world it leaves.
\<close>

definition launch_phase :: "env \<Rightarrow> auth_manager \<Rightarrow> world \<Rightarrow> auth_manager \<times> world" where
  "launch_phase E m w =
     (if start_auth_server m
      then (case start_auth_server_if_available E m w of
              (Ok m', w') \<Rightarrow> (m', w')
            | (Raise e, w') \<Rightarrow> (m, w'))
      else (m, w))"

text \<open>The coordinator and the world when the trigger starts, and when the poll loop starts.\<close>

definition before_trigger :: "env \<Rightarrow> auth_manager \<Rightarrow> world \<Rightarrow> auth_manager \<times> world" where
  "before_trigger E m w = launch_phase E m (snd (initial_status_check E w))"

definition before_poll :: "env \<Rightarrow> auth_manager \<Rightarrow> world \<Rightarrow> auth_manager \<times> world" where
  "before_poll E m w =
     (fst (before_trigger E m w),
      snd (trigger_authentication E (fst (before_trigger E m w)) (snd (before_trigger E m w))))"

text \<open>
  The time between the start of the poll loop and the moment the run raises the timeout
  failure, when it does.
\<close>

definition timeout_elapsed :: "env \<Rightarrow> auth_manager \<Rightarrow> world \<Rightarrow> rat option" where
  "timeout_elapsed E m w =
     (case ensure_authenticated E m w of
        Some (Raise e, m', w') \<Rightarrow>
          if e = timeout_error then Some (clock w' - clock (snd (before_poll E m w))) else None
      | _ \<Rightarrow> None)"




section \<open>Properties\<close>

subsection \<open>Text extraction\<close>

lemma part_of_kept: "part_of c = (if kept c then Some (text_value c) else None)"
  by (cases c) (auto simp: kept_def spec_textual_def text_value_def split: option.splits)

lemma collect_parts_acc:
  "collect_parts cs acc = acc @ map text_value (filter kept cs)"
  by (induction cs arbitrary: acc) (simp_all add: part_of_kept)

lemma strs_of_all_str:
  "\<forall>v \<in> set vs. is_str v \<Longrightarrow> strs_of i vs = Inr (map str_of vs)"
proof (induction vs arbitrary: i)
  case Nil
  then show ?case by simp
next
  case (Cons v vs)
  then obtain s where "v = PStr s" by (cases v) (auto simp: is_str_def)
  with Cons show ?case by (simp add: str_of_def)
qed

lemma contents_to_text_strs:
  assumes "\<forall>c \<in> set cs. kept c \<longrightarrow> is_str (text_value c)"
  shows "contents_to_text (Some cs) =
           Inr (join_strs [CHR 0x0A] (map (\<lambda>c. str_of (text_value c)) (filter kept cs)))"
proof -
  have "\<forall>v \<in> set (map text_value (filter kept cs)). is_str v"
    using assms by auto
  then have "strs_of 0 (map text_value (filter kept cs)) =
               Inr (map str_of (map text_value (filter kept cs)))"
    by (rule strs_of_all_str)
  then show ?thesis
    by (simp add: contents_to_text_def py_join_def collect_parts_acc comp_def)
qed

text \<open>
  C4, as the claim states it, fails: a \<^verbatim>\<open>dict\<close> fragment with type tag \<^verbatim>\<open>"text"\<close>
  and no text field is not textual in the claim's sense, yet the code keeps it as an
  empty string, so \<^verbatim>\<open>[{type:"text", text:"a"}, {type:"text"}]\<close> gives \<^verbatim>\<open>"a\n"\<close>
  where keeping exactly the textual fragments gives \<^verbatim>\<open>"a"\<close>.
\<close>

theorem contents_to_text_dict_without_text:
  "contents_to_text
     (Some [Dict [''type'' \<mapsto> PStr ''text'', ''text'' \<mapsto> PStr ''a''],
            Dict [''type'' \<mapsto> PStr ''text'']]) = Inr (''a'' @ [CHR 0x0A])
   \<and> spec_contents_to_text
     (Some [Dict [''type'' \<mapsto> PStr ''text'', ''text'' \<mapsto> PStr ''a''],
            Dict [''type'' \<mapsto> PStr ''text'']]) = ''a''
   \<and> contents_to_text
     (Some [Dict [''type'' \<mapsto> PStr ''text'', ''text'' \<mapsto> PStr ''a''],
            Dict [''type'' \<mapsto> PStr ''text'']])
     \<noteq> Inr (spec_contents_to_text
         (Some [Dict [''type'' \<mapsto> PStr ''text'', ''text'' \<mapsto> PStr ''a''],
                Dict [''type'' \<mapsto> PStr ''text'']]))"
  by (simp add: contents_to_text_def py_join_def spec_contents_to_text_def spec_textual_def
      str_of_def)

text \<open>
  C4, amended. For every sequence of content fragments whose kept text values are
  strings, text extraction keeps the fragments with type tag \<^verbatim>\<open>"text"\<close> and a text
  field (attribute-shaped or dict-shaped) and also the dict-shaped fragments with type tag
  \<^verbatim>\<open>"text"\<close> and no text field, which count as the empty string; it joins their text
  values in order with newlines. The result is the empty string when the sequence is
  empty, null or has no kept fragment, and the fragments
  \<^verbatim>\<open>[{type:"text", text:"a"}, {type:"other"}, {type:"text", text:"b"}]\<close> give
  \<^verbatim>\<open>"a\nb"\<close>.
\<close>

theorem contents_to_text_keeps_textual:
  assumes "\<forall>c \<in> set cs. kept c \<longrightarrow> is_str (text_value c)"
  shows "contents_to_text (Some cs) =
           Inr (join_strs [CHR 0x0A] (map (\<lambda>c. str_of (text_value c)) (filter kept cs)))
         \<and> (filter kept cs = [] \<longrightarrow> contents_to_text (Some cs) = Inr [])
         \<and> contents_to_text None = Inr []
         \<and> contents_to_text (Some []) = Inr []
         \<and> contents_to_text
             (Some [Dict [''type'' \<mapsto> PStr ''text'', ''text'' \<mapsto> PStr ''a''],
                    Dict [''type'' \<mapsto> PStr ''other''],
                    Dict [''type'' \<mapsto> PStr ''text'', ''text'' \<mapsto> PStr ''b'']])
             = Inr (''a'' @ [CHR 0x0A] @ ''b'')"
proof -
  have main: "contents_to_text (Some cs) =
           Inr (join_strs [CHR 0x0A] (map (\<lambda>c. str_of (text_value c)) (filter kept cs)))"
    using assms by (rule contents_to_text_strs)
  have none: "contents_to_text None = Inr []"
    by (simp add: contents_to_text_def py_join_def)
  have nil: "contents_to_text (Some []) = Inr []"
    by (simp add: contents_to_text_def py_join_def)
  have ex: "contents_to_text
             (Some [Dict [''type'' \<mapsto> PStr ''text'', ''text'' \<mapsto> PStr ''a''],
                    Dict [''type'' \<mapsto> PStr ''other''],
                    Dict [''type'' \<mapsto> PStr ''text'', ''text'' \<mapsto> PStr ''b'']])
             = Inr (''a'' @ [CHR 0x0A] @ ''b'')"
    by (simp add: contents_to_text_def py_join_def)
  from main none nil ex show ?thesis by simp
qed

theorem contents_to_text_keeps_textual_witness:
  "list_all (\<lambda>c. kept c \<longrightarrow> is_str (text_value c))
     [Obj [''type'' \<mapsto> PStr ''text'', ''text'' \<mapsto> PStr ''a''],
      Obj [''type'' \<mapsto> PStr ''image''],
      Dict [''type'' \<mapsto> PStr ''text'']]
   \<and> contents_to_text
       (Some [Obj [''type'' \<mapsto> PStr ''text'', ''text'' \<mapsto> PStr ''a''],
              Obj [''type'' \<mapsto> PStr ''image''],
              Dict [''type'' \<mapsto> PStr ''text'']]) = Inr (''a'' @ [CHR 0x0A])"
proof -
  have h: "\<forall>c \<in> set [Obj [''type'' \<mapsto> PStr ''text'', ''text'' \<mapsto> PStr ''a''],
                Obj [''type'' \<mapsto> PStr ''image''],
                Dict [''type'' \<mapsto> PStr ''text'']].
      kept c \<longrightarrow> is_str (text_value c)"
    by (simp add: kept_def spec_textual_def text_value_def is_str_def)
  have k: "filter kept [Obj [''type'' \<mapsto> PStr ''text'', ''text'' \<mapsto> PStr ''a''],
                Obj [''type'' \<mapsto> PStr ''image''],
                Dict [''type'' \<mapsto> PStr ''text'']]
           = [Obj [''type'' \<mapsto> PStr ''text'', ''text'' \<mapsto> PStr ''a''],
                Dict [''type'' \<mapsto> PStr ''text'']]"
    by (simp add: kept_def spec_textual_def)
  from contents_to_text_keeps_textual [OF h] h show ?thesis
    unfolding k list_all_iff by (simp add: text_value_def str_of_def)
qed

subsection \<open>Configuration\<close>


lemma of_char_lower_char:
  "(of_char (lower_char c) :: nat) =
     (if (65 \<le> (of_char c :: nat) \<and> (of_char c :: nat) \<le> 90) \<or>
         (192 \<le> (of_char c :: nat) \<and> (of_char c :: nat) \<le> 222 \<and> (of_char c :: nat) \<noteq> 215)
      then of_char c + 32 else of_char c)"
  by (simp add: lower_char_def Let_def)

lemma char_eq_code: "(c = d) = ((of_char c :: nat) = of_char d)"
  by simp

lemma lower_char_letter:
  assumes "97 \<le> (of_char l :: nat)" and "(of_char l :: nat) \<le> 122"
  shows "lower_char c = l \<longleftrightarrow> (of_char c :: nat) = of_char l \<or> (of_char c :: nat) + 32 = of_char l"
proof -
  have "lower_char c = l \<longleftrightarrow> (of_char (lower_char c) :: nat) = of_char l"
    by (rule char_eq_code)
  also have "\<dots> \<longleftrightarrow> (of_char c :: nat) = of_char l \<or> (of_char c :: nat) + 32 = of_char l"
    using assms unfolding of_char_lower_char by auto
  finally show ?thesis .
qed

lemma lower_char_f: "lower_char c = CHR ''f'' \<longleftrightarrow> c = CHR ''f'' \<or> c = CHR ''F''"
  by (simp add: lower_char_letter char_eq_code [of c])
lemma lower_char_a: "lower_char c = CHR ''a'' \<longleftrightarrow> c = CHR ''a'' \<or> c = CHR ''A''"
  by (simp add: lower_char_letter char_eq_code [of c])
lemma lower_char_l: "lower_char c = CHR ''l'' \<longleftrightarrow> c = CHR ''l'' \<or> c = CHR ''L''"
  by (simp add: lower_char_letter char_eq_code [of c])
lemma lower_char_s: "lower_char c = CHR ''s'' \<longleftrightarrow> c = CHR ''s'' \<or> c = CHR ''S''"
  by (simp add: lower_char_letter char_eq_code [of c])
lemma lower_char_e: "lower_char c = CHR ''e'' \<longleftrightarrow> c = CHR ''e'' \<or> c = CHR ''E''"
  by (simp add: lower_char_letter char_eq_code [of c])

lemma py_lower_false: "py_lower s = ''false'' \<longleftrightarrow> false_any_case s"
proof -
  have "py_lower s = ''false'' \<longleftrightarrow>
          (\<exists>a b c d e. s = [a, b, c, d, e] \<and> lower_char a = CHR ''f'' \<and> lower_char b = CHR ''a'' \<and>
             lower_char c = CHR ''l'' \<and> lower_char d = CHR ''s'' \<and> lower_char e = CHR ''e'')"
    unfolding py_lower_def by (auto simp: map_eq_Cons_conv)
  also have "\<dots> \<longleftrightarrow> false_any_case s"
    unfolding lower_char_f lower_char_a lower_char_l lower_char_s lower_char_e false_any_case_def
    by (auto split: list.splits)
  finally show ?thesis .
qed

text \<open>
  C9, as the claim states it, fails: the environment string is lower-cased before it is
  compared, so \<^verbatim>\<open>START_AUTH_SERVER=False\<close>, which is not the literal \<^verbatim>\<open>false\<close>,
  resolves to false.
\<close>

theorem init_false_in_upper_case:
  "''False'' \<noteq> ''false''
   \<and> init plain_int no_float [''START_AUTH_SERVER'' \<mapsto> ''False''] ''/srv''
       (Some 180) (Some (Finite 2)) None None
     = Inr \<lparr> server_dir = ''/srv'', auth_server_process = None, timeout_seconds = 180,
             poll_interval_seconds = Finite 2, start_auth_server = False, browser_open = True \<rparr>"
  by (simp add: init_def getenv_def py_lower_false false_any_case_def)

text \<open>
  C9, amended. For every configuration construction that returns: each of the four
  options, when given as an explicit constructor argument, takes that value; when absent,
  it falls back to the environment-derived default (the integer or float conversion of
  the variable, or of \<^verbatim>\<open>180\<close> and \<^verbatim>\<open>2\<close> when the variable is unset). In particular
  \<^verbatim>\<open>START_AUTH_SERVER\<close> and \<^verbatim>\<open>BROWSER_OPEN\<close> resolve to true for every environment
  string except \<^verbatim>\<open>false\<close> written in any mix of upper and lower case, and default to
  true when the variable is unset. A construction with all four options given always
  returns.
\<close>

theorem init_options:
  assumes "init py_int py_float environ sdir timeout_arg poll_arg start_arg browser_arg = Inr m"
  shows "(case timeout_arg of
            Some t \<Rightarrow> timeout_seconds m = t
          | None \<Rightarrow> py_int (case environ ''AUTH_TIMEOUT_SECONDS'' of Some v \<Rightarrow> v | None \<Rightarrow> ''180'')
                      = Inr (timeout_seconds m))
       \<and> (case poll_arg of
            Some p \<Rightarrow> poll_interval_seconds m = p
          | None \<Rightarrow> py_float (case environ ''AUTH_POLL_INTERVAL_SECONDS'' of Some v \<Rightarrow> v | None \<Rightarrow> ''2'')
                      = Inr (poll_interval_seconds m))
       \<and> start_auth_server m =
           (case start_arg of
              Some b \<Rightarrow> b
            | None \<Rightarrow> (case environ ''START_AUTH_SERVER'' of
                         Some v \<Rightarrow> \<not> false_any_case v | None \<Rightarrow> True))
       \<and> browser_open m =
           (case browser_arg of
              Some b \<Rightarrow> b
            | None \<Rightarrow> (case environ ''BROWSER_OPEN'' of
                         Some v \<Rightarrow> \<not> false_any_case v | None \<Rightarrow> True))
       \<and> auth_server_process m = None \<and> server_dir m = sdir
       \<and> init py_int py_float environ sdir (Some t) (Some p) (Some s) (Some b)
           = Inr \<lparr> server_dir = sdir, auth_server_process = None, timeout_seconds = t,
                   poll_interval_seconds = p, start_auth_server = s, browser_open = b \<rparr>"
proof -
  define tsrc where "tsrc =
    (case timeout_arg of
       None \<Rightarrow> py_int (getenv environ ''AUTH_TIMEOUT_SECONDS'' ''180'') | Some t \<Rightarrow> Inr t)"
  define psrc where "psrc =
    (case poll_arg of
       None \<Rightarrow> py_float (getenv environ ''AUTH_POLL_INTERVAL_SECONDS'' ''2'') | Some p \<Rightarrow> Inr p)"
  define sv where "sv =
    (case start_arg of
       None \<Rightarrow> py_lower (getenv environ ''START_AUTH_SERVER'' ''true'') \<noteq> ''false''
     | Some b \<Rightarrow> b)"
  define bv where "bv =
    (case browser_arg of
       None \<Rightarrow> py_lower (getenv environ ''BROWSER_OPEN'' ''true'') \<noteq> ''false''
     | Some b \<Rightarrow> b)"
  have unfolded: "init py_int py_float environ sdir timeout_arg poll_arg start_arg browser_arg =
      (case tsrc of Inl e \<Rightarrow> Inl e
       | Inr t \<Rightarrow> (case psrc of Inl e \<Rightarrow> Inl e
          | Inr p \<Rightarrow> Inr \<lparr> server_dir = sdir, auth_server_process = None, timeout_seconds = t,
                   poll_interval_seconds = p, start_auth_server = sv, browser_open = bv \<rparr>))"
    unfolding init_def tsrc_def psrc_def sv_def bv_def by (rule refl)
  from assms obtain tv where tv: "tsrc = Inr tv"
    unfolding unfolded by (cases tsrc) simp_all
  from assms tv obtain pv where pv: "psrc = Inr pv"
    unfolding unfolded by (cases psrc) simp_all
  from assms have m: "m = \<lparr> server_dir = sdir, auth_server_process = None, timeout_seconds = tv,
                   poll_interval_seconds = pv, start_auth_server = sv, browser_open = bv \<rparr>"
    unfolding unfolded tv pv by simp
  have dflt: "\<not> false_any_case ''true''"
    by (simp add: false_any_case_def)
  have t: "(case timeout_arg of
            Some t \<Rightarrow> timeout_seconds m = t
          | None \<Rightarrow> py_int (case environ ''AUTH_TIMEOUT_SECONDS'' of Some v \<Rightarrow> v | None \<Rightarrow> ''180'')
                      = Inr (timeout_seconds m))"
    using tv unfolding tsrc_def m getenv_def by (cases timeout_arg) simp_all
  have p: "(case poll_arg of
            Some p \<Rightarrow> poll_interval_seconds m = p
          | None \<Rightarrow> py_float (case environ ''AUTH_POLL_INTERVAL_SECONDS'' of Some v \<Rightarrow> v | None \<Rightarrow> ''2'')
                      = Inr (poll_interval_seconds m))"
    using pv unfolding psrc_def m getenv_def by (cases poll_arg) simp_all
  have s: "start_auth_server m =
           (case start_arg of
              Some b \<Rightarrow> b
            | None \<Rightarrow> (case environ ''START_AUTH_SERVER'' of
                         Some v \<Rightarrow> \<not> false_any_case v | None \<Rightarrow> True))"
    using dflt unfolding m sv_def getenv_def py_lower_false
    by (cases start_arg; cases "environ ''START_AUTH_SERVER''") simp_all
  have b: "browser_open m =
           (case browser_arg of
              Some b \<Rightarrow> b
            | None \<Rightarrow> (case environ ''BROWSER_OPEN'' of
                         Some v \<Rightarrow> \<not> false_any_case v | None \<Rightarrow> True))"
    using dflt unfolding m bv_def getenv_def py_lower_false
    by (cases browser_arg; cases "environ ''BROWSER_OPEN''") simp_all
  have h: "auth_server_process m = None \<and> server_dir m = sdir"
    unfolding m by simp
  have e: "init py_int py_float environ sdir (Some t) (Some p) (Some s) (Some b)
           = Inr \<lparr> server_dir = sdir, auth_server_process = None, timeout_seconds = t,
                   poll_interval_seconds = p, start_auth_server = s, browser_open = b \<rparr>"
    by (simp add: init_def)
  from t p s b h e show ?thesis by blast
qed

theorem init_options_witness:
  "init plain_int no_float [''BROWSER_OPEN'' \<mapsto> ''FALSE''] ''/srv''
       None (Some (Finite 2)) None None
     = Inr \<lparr> server_dir = ''/srv'', auth_server_process = None, timeout_seconds = 180,
             poll_interval_seconds = Finite 2, start_auth_server = True, browser_open = False \<rparr>
   \<and> plain_int ''180'' = Inr 180
   \<and> false_any_case ''FALSE''"
proof -
  have h: "init plain_int no_float [''BROWSER_OPEN'' \<mapsto> ''FALSE''] ''/srv''
       None (Some (Finite 2)) None None
     = Inr \<lparr> server_dir = ''/srv'', auth_server_process = None, timeout_seconds = 180,
             poll_interval_seconds = Finite 2, start_auth_server = True, browser_open = False \<rparr>"
    by (simp add: init_def getenv_def py_lower_false false_any_case_def plain_int_def)
  from init_options [OF h] h show ?thesis
    by (simp add: false_any_case_def plain_int_def)
qed

subsection \<open>Helper process\<close>

lemma start_with_handle:
  "auth_server_process m \<noteq> None \<Longrightarrow> start_auth_server_if_available E m w = (Ok m, w)"
  by (simp add: start_auth_server_if_available_def)

lemma start_without_script:
  "auth_server_process m = None \<Longrightarrow>
   \<not> path_exists E (path_join (server_dir m) ''outlook-auth-server.js'') \<Longrightarrow>
   start_auth_server_if_available E m w = (Ok m, w)"
  by (simp add: start_auth_server_if_available_def)

lemma start_spawns:
  assumes "auth_server_process m = None"
    and "path_exists E (path_join (server_dir m) ''outlook-auth-server.js'')"
    and "popen_raises E (helper_req E m) = None"
  shows "start_auth_server_if_available E m w =
           (Ok (m\<lparr>auth_server_process := Some (next_pid w)\<rparr>),
            w\<lparr>clock := clock w + 1 / 2,
              trace := trace w @
                [Print (''Starting local auth server: ''
                          @ path_join (server_dir m) ''outlook-auth-server.js''),
                 Popen (helper_req E m), SyncSleep (1 / 2)],
              live := live w @ [next_pid w],
              next_pid := Suc (next_pid w)\<rparr>)"
  using assms
  by (simp add: start_auth_server_if_available_def helper_req_def try_except_def bind_io_def
      print2_def subprocess_popen_def time_sleep_def return_io_def emit_def Let_def)

lemma start_spawn_fails:
  assumes "auth_server_process m = None"
    and "path_exists E (path_join (server_dir m) ''outlook-auth-server.js'')"
    and "popen_raises E (helper_req E m) = Some e"
  shows "start_auth_server_if_available E m w =
           (Ok m,
            w\<lparr>trace := trace w @
                [Print (''Starting local auth server: ''
                          @ path_join (server_dir m) ''outlook-auth-server.js''),
                 Popen (helper_req E m),
                 Print (''Failed to start auth server: '' @ str_exn e)]\<rparr>)"
  using assms
  by (simp add: start_auth_server_if_available_def helper_req_def try_except_def bind_io_def
      print2_def subprocess_popen_def time_sleep_def return_io_def emit_def Let_def)

lemma stop_without_handle:
  "auth_server_process m = None \<Longrightarrow> stop E m w = (Ok m, w)"
  by (simp add: stop_def)

lemma stop_with_handle:
  "auth_server_process m = Some p \<Longrightarrow>
   stop E m w =
     (Ok (m\<lparr>auth_server_process := None\<rparr>),
      w\<lparr>trace := trace w @ [Terminate p],
        live := (if terminate_raises E p = None \<and> ends_on_sigterm E p
                 then removeAll p (live w) else live w)\<rparr>)"
  by (cases "terminate_raises E p")
     (simp_all add: stop_def try_except_def bind_io_def proc_terminate_def return_io_def emit_def
        Let_def)

lemma helper_env_at:
  "helper_env environ k =
     (if k = ''MS_CLIENT_ID''
      then Some (case environ ''MS_CLIENT_ID'' of
                   Some v \<Rightarrow> v
                 | None \<Rightarrow> (case environ ''OUTLOOK_CLIENT_ID'' of Some v \<Rightarrow> v | None \<Rightarrow> []))
      else if k = ''MS_CLIENT_SECRET''
      then Some (case environ ''MS_CLIENT_SECRET'' of
                   Some v \<Rightarrow> v
                 | None \<Rightarrow> (case environ ''OUTLOOK_CLIENT_SECRET'' of Some v \<Rightarrow> v | None \<Rightarrow> []))
      else environ k)"
  by (simp add: helper_env_def setdefault_def dict_get_def Let_def split: option.splits)

text \<open>
  C8. The environment handed to the helper agrees with the inherited environment on
  every variable except \<^verbatim>\<open>MS_CLIENT_ID\<close> and \<^verbatim>\<open>MS_CLIENT_SECRET\<close>; each of these
  two keeps its inherited value when it has one, and otherwise takes the value of
  \<^verbatim>\<open>OUTLOOK_CLIENT_ID\<close> or \<^verbatim>\<open>OUTLOOK_CLIENT_SECRET\<close> (the empty string when that is
  unset too). Whenever a launch reaches the spawn (no handle yet, script present), the
  one spawn request it makes carries this environment.
\<close>

theorem helper_env_remaps_credentials:
  "helper_env environ k =
     (if k = ''MS_CLIENT_ID''
      then Some (case environ ''MS_CLIENT_ID'' of
                   Some v \<Rightarrow> v
                 | None \<Rightarrow> (case environ ''OUTLOOK_CLIENT_ID'' of Some v \<Rightarrow> v | None \<Rightarrow> []))
      else if k = ''MS_CLIENT_SECRET''
      then Some (case environ ''MS_CLIENT_SECRET'' of
                   Some v \<Rightarrow> v
                 | None \<Rightarrow> (case environ ''OUTLOOK_CLIENT_SECRET'' of Some v \<Rightarrow> v | None \<Rightarrow> []))
      else environ k)
   \<and> (auth_server_process m = None \<and>
      path_exists E (path_join (server_dir m) ''outlook-auth-server.js'') \<longrightarrow>
      (\<exists>r w'. start_auth_server_if_available E m w = (r, w') \<and>
         filter is_popen (events_since w w') =
           [Popen \<lparr> argv = [''node'', path_join (server_dir m) ''outlook-auth-server.js''],
                    spawn_env = helper_env (os_environ E),
                    cwd = server_dir m \<rparr>]))"
proof -
  have spawn: "\<exists>r w'. start_auth_server_if_available E m w = (r, w') \<and>
         filter is_popen (events_since w w') = [Popen (helper_req E m)]"
    if h: "auth_server_process m = None"
      and p: "path_exists E (path_join (server_dir m) ''outlook-auth-server.js'')"
  proof (cases "popen_raises E (helper_req E m)")
    case None
    show ?thesis
      unfolding start_spawns [OF h p None] by (simp add: events_since_def)
  next
    case (Some e)
    show ?thesis
      unfolding start_spawn_fails [OF h p Some] by (simp add: events_since_def)
  qed
  from spawn helper_env_at [of environ k] show ?thesis
    unfolding helper_req_def by blast
qed

theorem helper_env_remaps_credentials_witness:
  "helper_env [''OUTLOOK_CLIENT_ID'' \<mapsto> ''abc'', ''MS_CLIENT_SECRET'' \<mapsto> ''s3''] ''MS_CLIENT_ID''
     = Some ''abc''
   \<and> auth_server_process (manager0 180 2) = None
   \<and> path_exists silent_env (path_join (server_dir (manager0 180 2)) ''outlook-auth-server.js'')
   \<and> filter is_popen
       (events_since fresh_world
          (snd (start_auth_server_if_available silent_env (manager0 180 2) fresh_world)))
     = [Popen \<lparr> argv = [''node'', ''/srv/outlook-auth-server.js''],
                spawn_env = helper_env Map.empty, cwd = ''/srv'' \<rparr>]"
proof -
  have h: "auth_server_process (manager0 180 2) = None"
    by (simp add: manager0_def)
  have p: "path_exists silent_env
             (path_join (server_dir (manager0 180 2)) ''outlook-auth-server.js'')"
    by (simp add: silent_env_def always_exists_def)
  from helper_env_remaps_credentials
         [of "[''OUTLOOK_CLIENT_ID'' \<mapsto> ''abc'', ''MS_CLIENT_SECRET'' \<mapsto> ''s3'']"
             "''MS_CLIENT_ID''" "manager0 180 2" silent_env fresh_world]
       h p
  show ?thesis
    by (auto simp: manager0_def silent_env_def path_join_def)
qed

text \<open>
  C7. \<^verbatim>\<open>stop\<close> never raises. Without a handle it leaves the coordinator and the world
  as they are. With a handle it asks the process to terminate, clears the handle and
  returns normally, also when the termination request raises; a second call then
  changes nothing.
\<close>

theorem stop_idempotent_never_raises:
  "(auth_server_process m = None \<longrightarrow> stop E m w = (Ok m, w))
   \<and> (\<forall>p. auth_server_process m = Some p \<longrightarrow>
        (\<exists>w'. stop E m w = (Ok (m\<lparr>auth_server_process := None\<rparr>), w')
            \<and> events_since w w' = [Terminate p]))
   \<and> (\<exists>m' w'. stop E m w = (Ok m', w') \<and> auth_server_process m' = None
        \<and> stop E m' w' = (Ok m', w'))"
proof (cases "auth_server_process m")
  case None
  then show ?thesis by (simp add: stop_without_handle)
next
  case (Some p)
  then show ?thesis by (simp add: stop_with_handle stop_without_handle events_since_def)
qed

theorem stop_idempotent_never_raises_witness:
  "stop denying_env (manager0 180 2) fresh_world = (Ok (manager0 180 2), fresh_world)
   \<and> stop denying_env ((manager0 180 2)\<lparr>auth_server_process := Some 0\<rparr>)
        (fresh_world\<lparr>live := [0], next_pid := 1\<rparr>)
     = (Ok (manager0 180 2), fresh_world\<lparr>trace := [Terminate 0], live := [0], next_pid := 1\<rparr>)
   \<and> terminate_raises denying_env 0 = Some (Exn OtherException ''not permitted'')"
proof -
  have t: "terminate_raises denying_env 0 = Some (Exn OtherException ''not permitted'')"
    by (simp add: denying_env_def silent_env_def always_raises_def)
  have a: "stop denying_env (manager0 180 2) fresh_world = (Ok (manager0 180 2), fresh_world)"
    using stop_idempotent_never_raises [of "manager0 180 2" denying_env fresh_world]
    by (simp add: manager0_def)
  have "\<exists>w'. stop denying_env ((manager0 180 2)\<lparr>auth_server_process := Some 0\<rparr>)
        (fresh_world\<lparr>live := [0], next_pid := 1\<rparr>) = (Ok (manager0 180 2), w')"
    using stop_idempotent_never_raises
            [of "(manager0 180 2)\<lparr>auth_server_process := Some 0\<rparr>" denying_env
                "fresh_world\<lparr>live := [0], next_pid := 1\<rparr>"]
    by (auto simp: manager0_def)
  then have b: "stop denying_env ((manager0 180 2)\<lparr>auth_server_process := Some 0\<rparr>)
        (fresh_world\<lparr>live := [0], next_pid := 1\<rparr>)
     = (Ok (manager0 180 2), fresh_world\<lparr>trace := [Terminate 0], live := [0], next_pid := 1\<rparr>)"
    using t by (auto simp: stop_with_handle manager0_def fresh_world_def)
  from a b t show ?thesis by simp
qed

subsection \<open>The phases of the orchestration\<close>

lemma contains_nonempty: "contains sub s \<Longrightarrow> sub \<noteq> [] \<Longrightarrow> s \<noteq> []"
  by (cases s) simp_all

lemma await_call_tool_eq:
  "call_tool E (ncalls w) name args = (took, r) \<Longrightarrow>
   await_call_tool E name args w =
     (case r of Inl e \<Rightarrow> Raise e | Inr v \<Rightarrow> Ok v, called name args took w)"
  by (cases r) (simp_all add: await_call_tool_def called_def emit_def)


lemma initial_status_check_raise:
  assumes "call_tool E (ncalls w) ''check-auth-status'' [] = (took, Inl (Exception e))"
  shows "initial_status_check E w =
           (Ok False, logged (''Warning: check-auth-status failed: '' @ str_exn e)
                        (called ''check-auth-status'' [] took w))"
  by (simp add: initial_status_check_def try_except_def bind_io_def
      await_call_tool_eq [OF assms] print2_def return_io_def emit_def logged_def)

lemma initial_status_check_type_error:
  assumes "call_tool E (ncalls w) ''check-auth-status'' [] = (took, Inr res)"
    and "contents_to_text (content res) = Inl e"
  shows "initial_status_check E w =
           (Ok False, logged (''Warning: check-auth-status failed: '' @ str_exn e)
                        (called ''check-auth-status'' [] took w))"
  by (simp add: initial_status_check_def try_except_def bind_io_def
      await_call_tool_eq [OF assms(1)] assms(2) lift_io_def print2_def return_io_def emit_def
      logged_def)

lemma initial_status_check_authenticated:
  assumes "call_tool E (ncalls w) ''check-auth-status'' [] = (took, Inr res)"
    and "contents_to_text (content res) = Inr tx"
    and "contains ''Authenticated'' tx"
  shows "initial_status_check E w =
           (Ok True, logged (''Authentication status: '' @ tx)
                       (called ''check-auth-status'' [] took w))"
proof -
  have "tx \<noteq> []" using assms(3) by (rule contains_nonempty) simp
  then show ?thesis
    by (simp add: initial_status_check_def try_except_def bind_io_def
        await_call_tool_eq [OF assms(1)] assms(2,3) lift_io_def print2_def return_io_def
        emit_def logged_def)
qed

lemma initial_status_check_other:
  assumes "call_tool E (ncalls w) ''check-auth-status'' [] = (took, Inr res)"
    and "contents_to_text (content res) = Inr tx"
    and "\<not> contains ''Authenticated'' tx"
  shows "initial_status_check E w =
           (Ok False, logged (''Authentication status: ''
                                @ str_or tx ''Unknown/Not authenticated'')
                        (called ''check-auth-status'' [] took w))"
  by (simp add: initial_status_check_def try_except_def bind_io_def
      await_call_tool_eq [OF assms(1)] assms(2,3) lift_io_def print2_def return_io_def
      emit_def logged_def)

lemma initial_status_check_result:
  assumes "call_tool E (ncalls w) ''check-auth-status'' [] = (took, r)"
    and "\<forall>c. r \<noteq> Inl (BaseException c)"
  shows "\<exists>line. initial_status_check E w =
           (Ok (reports_authenticated r),
            logged line (called ''check-auth-status'' [] took w))"
proof (cases r)
  case (Inl x)
  with assms(2) obtain e where "x = Exception e" by (cases x) auto
  with assms(1) Inl show ?thesis
    by (auto simp: initial_status_check_raise reports_authenticated_def)
next
  case (Inr res)
  show ?thesis
  proof (cases "contents_to_text (content res)")
    case (Inl e)
    with assms \<open>r = Inr res\<close> show ?thesis
      by (auto simp: initial_status_check_type_error reports_authenticated_def)
  next
    case ct: (Inr tx)
    show ?thesis
    proof (cases "contains ''Authenticated'' tx")
      case True
      with assms \<open>r = Inr res\<close> ct show ?thesis
        by (auto simp: initial_status_check_authenticated reports_authenticated_def)
    next
      case False
      with assms \<open>r = Inr res\<close> ct show ?thesis
        by (auto simp: initial_status_check_other reports_authenticated_def)
    qed
  qed
qed


lemma polled_status_check_raise:
  assumes "call_tool E (ncalls w) ''check-auth-status'' [] = (took, Inl (Exception e))"
  shows "polled_status_check E w =
           (Ok False, logged (''Polling error: '' @ str_exn e)
                        (called ''check-auth-status'' [] took w))"
  by (simp add: polled_status_check_def try_except_def bind_io_def
      await_call_tool_eq [OF assms] print2_def return_io_def emit_def logged_def)

lemma polled_status_check_result:
  assumes "call_tool E (ncalls w) ''check-auth-status'' [] = (took, r)"
    and "\<forall>c. r \<noteq> Inl (BaseException c)"
  shows "\<exists>line. polled_status_check E w =
           (Ok (reports_authenticated r),
            logged line (called ''check-auth-status'' [] took w))"
proof -
  have ne: "contains ''Authenticated'' tx \<Longrightarrow> tx \<noteq> []" for tx
    using contains_nonempty [of "''Authenticated''" tx] by simp
  show ?thesis
  proof (cases r)
    case (Inl x)
    with assms(2) obtain e where "x = Exception e" by (cases x) auto
    with assms(1) Inl show ?thesis
      by (auto simp: polled_status_check_raise reports_authenticated_def)
  next
    case (Inr res)
    note c = assms(1) [unfolded Inr]
    show ?thesis
    proof (cases "contents_to_text (content res)")
      case (Inl e)
      then show ?thesis
        unfolding \<open>r = Inr res\<close> reports_authenticated_def
        by (simp add: polled_status_check_def try_except_def bind_io_def
            await_call_tool_eq [OF c] lift_io_def print2_def return_io_def)
           (auto simp: emit_def logged_def)
    next
      case ct: (Inr tx)
      show ?thesis
      proof (cases "contains ''Authenticated'' tx")
        case True
        then show ?thesis
          using ne [OF True]
          unfolding \<open>r = Inr res\<close> reports_authenticated_def
          by (simp add: polled_status_check_def try_except_def bind_io_def
              await_call_tool_eq [OF c] ct lift_io_def print2_def return_io_def)
             (auto simp: emit_def logged_def)
      next
        case False
        then show ?thesis
          unfolding \<open>r = Inr res\<close> reports_authenticated_def
          by (simp add: polled_status_check_def try_except_def bind_io_def
              await_call_tool_eq [OF c] ct lift_io_def print2_def return_io_def)
             (auto simp: emit_def logged_def)
      qed
    qed
  qed
qed

text \<open>The sleep of a poll iteration, for a delay that is a finite number.\<close>

lemma asyncio_sleep_finite:
  assumes "sleep_interrupted E (ncalls w) = None"
  shows "asyncio_sleep E (Finite x) w
           = Some (Ok (), slept (Finite x) (max x 0 + oversleep E (ncalls w)) w)"
  using assms by (simp add: asyncio_sleep_def Let_def emit_def slept_def)

lemma poll_iteration_finite:
  assumes "poll_interval_seconds m = Finite x"
    and "sleep_interrupted E (ncalls w) = None"
  shows "poll_iteration E m w =
           Some (polled_status_check E
                   (slept (Finite x) (max x 0 + oversleep E (ncalls w)) w))"
  by (simp add: poll_iteration_def assms(1) asyncio_sleep_finite [OF assms(2)])

lemma poll_iteration_result:
  assumes "poll_interval_seconds m = Finite x"
    and "sleep_interrupted E (ncalls w) = None"
    and "call_tool E (ncalls w) ''check-auth-status'' [] = (took, r)"
    and "\<forall>c. r \<noteq> Inl (BaseException c)"
  shows "\<exists>line. poll_iteration E m w =
           Some (Ok (reports_authenticated r),
                 logged line
                   (called ''check-auth-status'' [] took
                      (slept (Finite x) (max x 0 + oversleep E (ncalls w)) w)))"
proof -
  have c: "call_tool E (ncalls (slept (Finite x) (max x 0 + oversleep E (ncalls w)) w))
             ''check-auth-status'' [] = (took, r)"
    using assms(3) by (simp add: slept_def)
  from polled_status_check_result [OF c assms(4)] show ?thesis
    unfolding poll_iteration_finite [OF assms(1,2)] by simp
qed

lemma str_or_empty [simp]: "str_or s [] = s"
  by (simp add: str_or_def)

lemma trigger_authentication_interrupted:
  assumes "call_tool E (ncalls w) ''authenticate'' [(''force'', PBool True)]
             = (took, Inl (BaseException c))"
  shows "trigger_authentication E m w =
           (Raise (BaseException c), called ''authenticate'' [(''force'', PBool True)] took w)"
  by (simp add: trigger_authentication_def try_except_def bind_io_def
      await_call_tool_eq [OF assms])

lemma trigger_authentication_raise:
  assumes "call_tool E (ncalls w) ''authenticate'' [(''force'', PBool True)]
             = (took, Inl (Exception e))"
  shows "trigger_authentication E m w =
           (Ok (), logged (''Error calling authenticate tool: '' @ str_exn e)
                     (called ''authenticate'' [(''force'', PBool True)] took w))"
  by (simp add: trigger_authentication_def try_except_def bind_io_def
      await_call_tool_eq [OF assms] print2_def emit_def logged_def)

lemma trigger_authentication_type_error:
  assumes "call_tool E (ncalls w) ''authenticate'' [(''force'', PBool True)] = (took, Inr res)"
    and "contents_to_text (content res) = Inl e"
  shows "trigger_authentication E m w =
           (Ok (), logged (''Error calling authenticate tool: '' @ str_exn e)
                     (called ''authenticate'' [(''force'', PBool True)] took w))"
  by (simp add: trigger_authentication_def try_except_def bind_io_def
      await_call_tool_eq [OF assms(1)] assms(2) lift_io_def print2_def emit_def logged_def)

lemma trigger_authentication_no_url:
  assumes "call_tool E (ncalls w) ''authenticate'' [(''force'', PBool True)] = (took, Inr res)"
    and "contents_to_text (content res) = Inr tx"
    and "search_url tx = None"
  shows "trigger_authentication E m w =
           (Ok (),
            logged ''Could not find authentication URL in tool response. Please check the server logs.''
              (logged (''Authenticate tool response: '' @ str_or tx ''<no text>'')
                 (called ''authenticate'' [(''force'', PBool True)] took w)))"
  by (simp add: trigger_authentication_def try_except_def bind_io_def
      await_call_tool_eq [OF assms(1)] assms(2,3) lift_io_def print2_def print1_def emit_def
      logged_def)

lemma trigger_authentication_url:
  assumes "call_tool E (ncalls w) ''authenticate'' [(''force'', PBool True)] = (took, Inr res)"
    and "contents_to_text (content res) = Inr tx"
    and "search_url tx = Some u"
  shows "trigger_authentication E m w =
           (Ok (),
            (let w1 = logged (''Opening authentication URL: '' @ u)
                        (logged (''Authenticate tool response: '' @ str_or tx ''<no text>'')
                           (called ''authenticate'' [(''force'', PBool True)] took w))
             in if browser_open m
                then (case browser_raises E u of
                        None \<Rightarrow> w1\<lparr>trace := trace w1 @ [BrowserOpen u]\<rparr>
                      | Some e \<Rightarrow>
                          w1\<lparr>trace := trace w1 @
                                [BrowserOpen u,
                                 Print (''Could not open browser automatically: '' @ str_exn e)]\<rparr>)
                else w1))"
  by (cases "browser_raises E u")
     (simp_all add: trigger_authentication_def try_except_def bind_io_def
        await_call_tool_eq [OF assms(1)] assms(2,3) lift_io_def print2_def emit_def
        logged_def webbrowser_open_def return_io_def Let_def)

text \<open>
  Whatever the session answers, the trigger makes the one remote call and otherwise
  only prints and opens the browser; it returns normally unless the call is interrupted.
\<close>

lemma trigger_authentication_effect:
  "(fst (trigger_authentication E m w) = Ok ()
      \<or> (\<exists>c. snd (call_tool E (ncalls w) ''authenticate'' [(''force'', PBool True)])
                = Inl (BaseException c)
            \<and> fst (trigger_authentication E m w) = Raise (BaseException c)))
   \<and> ncalls (snd (trigger_authentication E m w)) = Suc (ncalls w)
   \<and> live (snd (trigger_authentication E m w)) = live w
   \<and> next_pid (snd (trigger_authentication E m w)) = next_pid w
   \<and> filter (is_call ''check-auth-status'')
         (events_since w (snd (trigger_authentication E m w))) = []
   \<and> filter (is_call ''authenticate'')
         (events_since w (snd (trigger_authentication E m w)))
       = [CallTool ''authenticate'' [(''force'', PBool True)]]
   \<and> filter is_async_sleep (events_since w (snd (trigger_authentication E m w))) = []
   \<and> filter is_popen (events_since w (snd (trigger_authentication E m w))) = []"
proof -
  obtain took r where c0:
    "call_tool E (ncalls w) ''authenticate'' [(''force'', PBool True)] = (took, r)"
    by (cases "call_tool E (ncalls w) ''authenticate'' [(''force'', PBool True)]")
  show ?thesis
  proof (cases r)
    case (Inl x)
    show ?thesis
    proof (cases x)
      case (Exception e)
      show ?thesis
        unfolding trigger_authentication_raise [OF c0 [unfolded Inl Exception]]
        by (simp add: logged_def called_def events_since_def)
    next
      case (BaseException c)
      show ?thesis
        unfolding trigger_authentication_interrupted [OF c0 [unfolded Inl BaseException]]
        by (simp add: c0 Inl BaseException called_def events_since_def)
    qed
  next
    case (Inr res)
    note c = c0 [unfolded Inr]
    show ?thesis
    proof (cases "contents_to_text (content res)")
      case (Inl e)
      show ?thesis
        unfolding trigger_authentication_type_error [OF c Inl]
        by (simp add: logged_def called_def events_since_def)
    next
      case ct: (Inr tx)
      show ?thesis
      proof (cases "search_url tx")
        case None
        show ?thesis
          unfolding trigger_authentication_no_url [OF c ct None]
          by (simp add: logged_def called_def events_since_def)
      next
        case (Some u)
        show ?thesis
          unfolding trigger_authentication_url [OF c ct Some]
          by (cases "browser_raises E u")
             (simp_all add: logged_def called_def events_since_def Let_def)
      qed
    qed
  qed
qed

text \<open>
  C2. When the initial status check answers with fragments whose text contains
  \<^verbatim>\<open>Authenticated\<close>, \<^verbatim>\<open>ensure_authenticated\<close> returns normally at once: all it does
  is the one status call and one line of output, so no helper is spawned, the
  \<^verbatim>\<open>authenticate\<close> tool is not called and the poll loop is not entered; the coordinator
  is unchanged.
\<close>

theorem ensure_authenticated_returns_when_authenticated:
  assumes "call_tool E (ncalls w) ''check-auth-status'' [] = (took, Inr res)"
    and "contents_to_text (content res) = Inr tx"
    and "contains ''Authenticated'' tx"
  shows "\<exists>w'. ensure_authenticated E m w = Some (Ok (), m, w')
           \<and> events_since w w' =
               [CallTool ''check-auth-status'' [], Print (''Authentication status: '' @ tx)]
           \<and> filter is_popen (events_since w w') = []
           \<and> filter (is_call ''authenticate'') (events_since w w') = []
           \<and> filter is_async_sleep (events_since w w') = []
           \<and> live w' = live w \<and> ncalls w' = Suc (ncalls w)"
proof -
  have "ensure_authenticated E m w =
          Some (Ok (), m, logged (''Authentication status: '' @ tx)
                            (called ''check-auth-status'' [] took w))"
    by (simp add: ensure_authenticated_def initial_status_check_authenticated [OF assms])
  then show ?thesis
    by (simp add: logged_def called_def events_since_def)
qed

theorem ensure_authenticated_returns_when_authenticated_witness:
  "call_tool authenticated_env (ncalls fresh_world) ''check-auth-status'' []
     = (0, Inr authenticated_result)
   \<and> contents_to_text (content authenticated_result) = Inr ''Authenticated''
   \<and> contains ''Authenticated'' ''Authenticated''
   \<and> (\<exists>w'. ensure_authenticated authenticated_env (manager0 180 2) fresh_world
              = Some (Ok (), manager0 180 2, w')
         \<and> events_since fresh_world w' =
             [CallTool ''check-auth-status'' [],
              Print ''Authentication status: Authenticated''])"
proof -
  have c: "call_tool authenticated_env (ncalls fresh_world) ''check-auth-status'' []
             = (0, Inr authenticated_result)"
    by (simp add: authenticated_env_def authenticated_session_def)
  have t: "contents_to_text (content authenticated_result) = Inr ''Authenticated''"
    by (simp add: authenticated_result_def contents_to_text_def py_join_def)
  have a: "contains ''Authenticated'' ''Authenticated''"
    by (simp add: startswith_def)
  from ensure_authenticated_returns_when_authenticated [OF c t a, of "manager0 180 2"] c t a
  show ?thesis by auto
qed

subsection \<open>URL extraction\<close>













subsection \<open>The flow between the phases\<close>

lemma start_auth_server_effect:
  "(\<exists>m'. fst (start_auth_server_if_available E m w) = Ok m')
   \<and> ncalls (snd (start_auth_server_if_available E m w)) = ncalls w
   \<and> filter (is_call n) (events_since w (snd (start_auth_server_if_available E m w))) = []
   \<and> filter is_async_sleep (events_since w (snd (start_auth_server_if_available E m w))) = []"
proof (cases "auth_server_process m = None
              \<and> path_exists E (path_join (server_dir m) ''outlook-auth-server.js'')")
  case False
  then have "start_auth_server_if_available E m w = (Ok m, w)"
    using start_with_handle [of m E w] start_without_script [of m E w] by blast
  then show ?thesis by (simp add: events_since_def)
next
  case True
  then have h: "auth_server_process m = None"
    and p: "path_exists E (path_join (server_dir m) ''outlook-auth-server.js'')"
    by simp_all
  show ?thesis
  proof (cases "popen_raises E (helper_req E m)")
    case None
    show ?thesis unfolding start_spawns [OF h p None] by (simp add: events_since_def)
  next
    case (Some e)
    show ?thesis unfolding start_spawn_fails [OF h p Some] by (simp add: events_since_def)
  qed
qed

lemma launch_phase_eq:
  "(if start_auth_server m then start_auth_server_if_available E m else return_io m) w
     = (Ok (fst (launch_phase E m w)), snd (launch_phase E m w))"
proof (cases "start_auth_server m")
  case False
  then show ?thesis by (simp add: launch_phase_def return_io_def)
next
  case True
  obtain m' where "fst (start_auth_server_if_available E m w) = Ok m'"
    using start_auth_server_effect [of E m w] by blast
  then obtain w' where "start_auth_server_if_available E m w = (Ok m', w')"
    by (cases "start_auth_server_if_available E m w") simp
  then show ?thesis using True by (simp add: launch_phase_def)
qed

lemma uninterrupted_call:
  "uninterrupted E \<Longrightarrow> call_tool E n name args = (took, r) \<Longrightarrow> r \<noteq> Inl (BaseException c)"
  unfolding uninterrupted_def by (metis snd_conv)

lemma uninterrupted_sleep:
  "uninterrupted E \<Longrightarrow> sleep_interrupted E n = None"
  by (simp add: uninterrupted_def)

lemma trigger_authentication_eq:
  assumes "uninterrupted E"
  shows "trigger_authentication E m w = (Ok (), snd (trigger_authentication E m w))"
proof -
  have "snd (call_tool E (ncalls w) ''authenticate'' [(''force'', PBool True)])
          \<noteq> Inl (BaseException c)" for c
    using assms by (simp add: uninterrupted_def)
  with trigger_authentication_effect [of E m w]
  have "fst (trigger_authentication E m w) = Ok ()" by blast
  then show ?thesis
    by (cases "trigger_authentication E m w") simp
qed

lemma ensure_authenticated_unfold:
  assumes "call_tool E (ncalls w) ''check-auth-status'' [] = (took, r)"
    and "\<not> reports_authenticated r"
    and un: "uninterrupted E"
  shows "ensure_authenticated E m w =
           map_option (\<lambda>(res, w4). (res, fst (before_poll E m w), w4))
             (poll_loop E (fst (before_poll E m w)) (clock (snd (before_poll E m w)))
                (snd (before_poll E m w)))"
proof -
  have "\<forall>c. r \<noteq> Inl (BaseException c)"
    using uninterrupted_call [OF un assms(1)] by blast
  from initial_status_check_result [OF assms(1) this] assms(2) obtain line where
    i: "initial_status_check E w = (Ok False, logged line (called ''check-auth-status'' [] took w))"
    by auto
  define w1 where "w1 = snd (initial_status_check E w)"
  have i': "initial_status_check E w = (Ok False, w1)"
    unfolding w1_def i by simp
  define m2 where "m2 = fst (launch_phase E m w1)"
  define w2 where "w2 = snd (launch_phase E m w1)"
  have l: "(if start_auth_server m then start_auth_server_if_available E m else return_io m) w1
             = (Ok m2, w2)"
    unfolding m2_def w2_def by (rule launch_phase_eq)
  define w3 where "w3 = snd (trigger_authentication E m2 w2)"
  have t: "trigger_authentication E m2 w2 = (Ok (), w3)"
    unfolding w3_def using un by (rule trigger_authentication_eq)
  have bp: "before_poll E m w = (m2, w3)"
    by (simp add: before_poll_def before_trigger_def m2_def w2_def w3_def w1_def)
  have "ensure_authenticated E m w =
          map_option (\<lambda>(res, w4). (res, m2, w4)) (poll_loop E m2 (clock w3) w3)"
    unfolding ensure_authenticated_def i' by (simp add: l t)
  then show ?thesis by (simp add: bp)
qed



subsection \<open>Statements that leave the helper processes alone\<close>






















subsection \<open>The poll loop\<close>







lemma poll_loop_expired:
  "\<not> clock w - start < of_int (timeout_seconds m) \<Longrightarrow>
   poll_loop E m start w = Some (Raise timeout_error, w)"
  by (subst poll_loop.simps) simp

lemma poll_loop_continues:
  assumes "clock w - start < of_int (timeout_seconds m)"
    and "poll_iteration E m w = Some (Ok False, w')"
  shows "poll_loop E m start w = poll_loop E m start w'"
  using assms by (subst poll_loop.simps) simp

lemma poll_loop_returns:
  assumes "clock w - start < of_int (timeout_seconds m)"
    and "poll_iteration E m w = Some (Ok True, w')"
  shows "poll_loop E m start w = Some (Ok (), w')"
  using assms by (subst poll_loop.simps) simp

lemma poll_loop_passes_on:
  assumes "clock w - start < of_int (timeout_seconds m)"
    and "poll_iteration E m w = Some (Raise e, w')"
  shows "poll_loop E m start w = Some (Raise e, w')"
  using assms by (subst poll_loop.simps) simp

lemma launch_phase_config:
  "timeout_seconds (fst (launch_phase E m w)) = timeout_seconds m
   \<and> poll_interval_seconds (fst (launch_phase E m w)) = poll_interval_seconds m
   \<and> browser_open (fst (launch_phase E m w)) = browser_open m
   \<and> start_auth_server (fst (launch_phase E m w)) = start_auth_server m
   \<and> server_dir (fst (launch_phase E m w)) = server_dir m"
proof (cases "start_auth_server m \<and> auth_server_process m = None
              \<and> path_exists E (path_join (server_dir m) ''outlook-auth-server.js'')")
  case False
  have "launch_phase E m w = (m, w)"
  proof (cases "start_auth_server m")
    case no: False
    then show ?thesis by (simp add: launch_phase_def)
  next
    case True
    with False have "start_auth_server_if_available E m w = (Ok m, w)"
      by (cases "auth_server_process m = None")
         (simp_all add: start_with_handle start_without_script)
    then show ?thesis by (simp add: launch_phase_def)
  qed
  then show ?thesis by simp
next
  case True
  then have s: "start_auth_server m" and h: "auth_server_process m = None"
    and p: "path_exists E (path_join (server_dir m) ''outlook-auth-server.js'')"
    by simp_all
  show ?thesis
  proof (cases "popen_raises E (helper_req E m)")
    case None
    show ?thesis unfolding launch_phase_def start_spawns [OF h p None] by (simp add: s)
  next
    case (Some e)
    show ?thesis unfolding launch_phase_def start_spawn_fails [OF h p Some] by (simp add: s)
  qed
qed

lemma before_poll_config:
  "timeout_seconds (fst (before_poll E m w)) = timeout_seconds m
   \<and> poll_interval_seconds (fst (before_poll E m w)) = poll_interval_seconds m"
  by (simp add: before_poll_def before_trigger_def launch_phase_config)

lemma ensure_authenticated_expired:
  assumes "timeout_seconds m \<le> 0"
    and "\<not> reports_authenticated (snd (call_tool E (ncalls w) ''check-auth-status'' []))"
    and un: "uninterrupted E"
  shows "ensure_authenticated E m w =
           Some (Raise timeout_error, fst (before_poll E m w), snd (before_poll E m w))"
proof -
  obtain took r where c: "call_tool E (ncalls w) ''check-auth-status'' [] = (took, r)"
    by (cases "call_tool E (ncalls w) ''check-auth-status'' []")
  with assms(2) have na: "\<not> reports_authenticated r" by simp
  have "\<not> clock (snd (before_poll E m w)) - clock (snd (before_poll E m w))
            < of_int (timeout_seconds (fst (before_poll E m w)))"
    using assms(1) by (simp add: before_poll_config)
  from poll_loop_expired [OF this] show ?thesis
    unfolding ensure_authenticated_unfold [OF c na un] by simp
qed



subsection \<open>The events of a run before the poll loop\<close>








subsection \<open>Outcomes of the orchestration\<close>

lemma silent_env_uninterrupted: "uninterrupted silent_env"
  by (simp add: uninterrupted_def silent_env_def silent_session_def never_interrupted_def)





subsection \<open>Timing of the poll loop\<close>

lemma initial_not_authenticated:
  "never_authenticated E \<Longrightarrow>
   \<not> reports_authenticated (snd (call_tool E (ncalls w) ''check-auth-status'' []))"
  by (simp add: never_authenticated_def)

text \<open>
  A poll iteration of a run in which no status check reports an authenticated status and
  no wait is interrupted: the loop goes on, and the clock has moved by the delay and the
  overhead of the iteration.
\<close>

lemma poll_iteration_unauthenticated:
  assumes "never_authenticated E" and "uninterrupted E"
    and "poll_interval_seconds m = Finite p"
  obtains w1 where
    "poll_iteration E m w = Some (Ok False, w1)"
    "clock w1 = clock w + max p 0 + iteration_overhead E (ncalls w)"
proof -
  obtain took r where c: "call_tool E (ncalls w) ''check-auth-status'' [] = (took, r)"
    by (cases "call_tool E (ncalls w) ''check-auth-status'' []")
  have took: "took = fst (call_tool E (ncalls w) ''check-auth-status'' [])"
    by (simp add: c)
  have na: "\<not> reports_authenticated r"
    using assms(1) c unfolding never_authenticated_def by (metis snd_conv)
  have ni: "\<forall>c. r \<noteq> Inl (BaseException c)"
    using uninterrupted_call [OF assms(2) c] by blast
  have s: "sleep_interrupted E (ncalls w) = None"
    using assms(2) by (rule uninterrupted_sleep)
  from poll_iteration_result [OF assms(3) s c ni] na obtain line where
    it: "poll_iteration E m w =
           Some (Ok False,
                 logged line
                   (called ''check-auth-status'' [] took
                      (slept (Finite p) (max p 0 + oversleep E (ncalls w)) w)))"
    by auto
  have "clock (logged line
                 (called ''check-auth-status'' [] took
                    (slept (Finite p) (max p 0 + oversleep E (ncalls w)) w)))
          = clock w + max p 0 + iteration_overhead E (ncalls w)"
    by (simp add: logged_def called_def slept_def iteration_overhead_def took)
  with it that show ?thesis by blast
qed

text \<open>
  Total correctness of the loop when every iteration moves the clock by at least a
  positive amount: \<open>k\<close> bounds the number of iterations still to come.
\<close>

lemma poll_loop_times_out:
  assumes na: "never_authenticated E" and un: "uninterrupted E"
    and fin: "poll_interval_seconds m = Finite p"
    and ov: "overhead_within E lo hi" and pos: "0 < max p 0 + lo"
  shows "of_int (timeout_seconds m) - (clock w - start) \<le> of_nat k * (max p 0 + lo) \<Longrightarrow>
         \<exists>w'. poll_loop E m start w = Some (Raise timeout_error, w')
            \<and> of_int (timeout_seconds m) \<le> clock w' - start
            \<and> (if of_int (timeout_seconds m) \<le> clock w - start then w' = w
                else clock w' - start < of_int (timeout_seconds m) + max p 0 + hi)"
proof (induction k arbitrary: w)
  case 0
  then have "\<not> clock w - start < of_int (timeout_seconds m)" by simp
  from poll_loop_expired [OF this] 0 show ?case by simp
next
  case (Suc k)
  show ?case
  proof (cases "clock w - start < of_int (timeout_seconds m)")
    case False
    from poll_loop_expired [OF this] False show ?thesis by simp
  next
    case True
    obtain w1 where it: "poll_iteration E m w = Some (Ok False, w1)"
      and c1: "clock w1 = clock w + max p 0 + iteration_overhead E (ncalls w)"
      using na un fin by (rule poll_iteration_unauthenticated)
    have lo: "lo \<le> iteration_overhead E (ncalls w)"
      and hi: "iteration_overhead E (ncalls w) \<le> hi"
      using ov by (simp_all add: overhead_within_def)
    have step: "poll_loop E m start w = poll_loop E m start w1"
      using True it by (rule poll_loop_continues)
    have "of_int (timeout_seconds m) - (clock w1 - start) \<le> of_nat k * (max p 0 + lo)"
      using Suc.prems c1 lo by (simp add: algebra_simps)
    from Suc.IH [OF this] obtain w' where
      h: "poll_loop E m start w1 = Some (Raise timeout_error, w')"
         "of_int (timeout_seconds m) \<le> clock w' - start"
         "if of_int (timeout_seconds m) \<le> clock w1 - start then w' = w1
          else clock w' - start < of_int (timeout_seconds m) + max p 0 + hi"
      by blast
    have "clock w' - start < of_int (timeout_seconds m) + max p 0 + hi"
    proof (cases "of_int (timeout_seconds m) \<le> clock w1 - start")
      case yes: True
      with h(3) have "w' = w1" by simp
      with c1 True hi show ?thesis by simp
    next
      case no: False
      with h(3) show ?thesis by simp
    qed
    with h(1,2) step True show ?thesis by auto
  qed
qed

lemma poll_loop_raises:
  assumes na: "never_authenticated E" and un: "uninterrupted E"
    and fin: "poll_interval_seconds m = Finite p"
    and ov: "overhead_within E lo hi" and pos: "0 < max p 0 + lo"
  shows "\<exists>w'. poll_loop E m start w = Some (Raise timeout_error, w')
            \<and> of_int (timeout_seconds m) \<le> clock w' - start
            \<and> (if of_int (timeout_seconds m) \<le> clock w - start then w' = w
                else clock w' - start < of_int (timeout_seconds m) + max p 0 + hi)"
proof -
  obtain k :: nat where
    "of_int (timeout_seconds m) - (clock w - start) < of_nat k * (max p 0 + lo)"
    using ex_less_of_nat_mult [OF pos] by blast
  then have "of_int (timeout_seconds m) - (clock w - start) \<le> of_nat k * (max p 0 + lo)"
    by simp
  from poll_loop_times_out [OF na un fin ov pos this] show ?thesis .
qed

lemma ensure_authenticated_via_poll:
  assumes "never_authenticated E" and "uninterrupted E"
  shows "ensure_authenticated E m w =
           map_option (\<lambda>(res, w4). (res, fst (before_poll E m w), w4))
             (poll_loop E (fst (before_poll E m w)) (clock (snd (before_poll E m w)))
                (snd (before_poll E m w)))"
proof -
  obtain took r where c: "call_tool E (ncalls w) ''check-auth-status'' [] = (took, r)"
    by (cases "call_tool E (ncalls w) ''check-auth-status'' []")
  with initial_not_authenticated [OF assms(1), of w] have "\<not> reports_authenticated r" by simp
  from ensure_authenticated_unfold [OF c this assms(2)] show ?thesis .
qed

lemma silent_env_never_authenticated: "never_authenticated silent_env"
  by (simp add: never_authenticated_def silent_env_def silent_session_def
      reports_authenticated_def)

lemma silent_env_overhead: "overhead_within silent_env 0 0"
  by (simp add: overhead_within_def iteration_overhead_def silent_env_def silent_session_def
      no_oversleep_def)

text \<open>
  C1, as the claim states it, fails for a configuration the constructor accepts: with
  \<open>T = - 5\<close> and \<open>P = 2\<close>, status checks that never report an authenticated status
  and poll iterations without overhead, the timeout is raised at elapsed time 0, which
  is not below \<open>T + P = - 3\<close>.
\<close>

theorem timeout_slack_fails:
  "never_authenticated silent_env \<and> uninterrupted silent_env
   \<and> overhead_within silent_env 0 0
   \<and> poll_interval_seconds (manager0 (- 5) 2) = Finite 2
   \<and> timeout_elapsed silent_env (manager0 (- 5) 2) fresh_world = Some 0
   \<and> \<not> (0 :: rat) < of_int (timeout_seconds (manager0 (- 5) 2)) + 2"
proof -
  note na = silent_env_never_authenticated and un = silent_env_uninterrupted
    and ov = silent_env_overhead
  have "timeout_seconds (manager0 (- 5) 2) \<le> 0"
    by (simp add: manager0_def)
  from ensure_authenticated_expired [OF this initial_not_authenticated [OF na] un]
  have a: "timeout_elapsed silent_env (manager0 (- 5) 2) fresh_world = Some 0"
    by (simp add: timeout_elapsed_def case_prod_beta)
  have b: "\<not> (0 :: rat) < of_int (timeout_seconds (manager0 (- 5) 2)) + 2"
    "poll_interval_seconds (manager0 (- 5) 2) = Finite 2"
    by (simp_all add: manager0_def)
  from na un ov a b show ?thesis by blast
qed

text \<open>
  C1, amended. Let every status check (the initial one and every polled one) report a
  non-authenticated status, let no wait be interrupted, let the poll interval be a
  finite number \<open>P\<close>, and let every poll iteration take between \<open>lo\<close> and \<open>hi\<close>
  longer than the delay \<open>max P 0\<close> it asks for (the oversleep of the sleep and the
  time of the remote call), where an iteration takes time: \<open>max P 0 + lo > 0\<close>. For a
  timeout \<open>T \<le> 0\<close>, \<^verbatim>\<open>ensure_authenticated\<close> raises the timeout failure at elapsed
  time 0 from the start of the poll loop. For \<open>T > 0\<close> it raises the timeout failure at
  an elapsed time that is at least \<open>T\<close> and below \<open>T + max P 0 + hi\<close>. With
  \<open>P > 0\<close> and iterations without overhead (\<open>lo = hi = 0\<close>) that is the claim's
  \<open>T \<le> elapsed < T + P\<close>: the loop exceeds the timeout by less than one interval.
\<close>

theorem timeout_within_one_interval:
  assumes "never_authenticated E" and "uninterrupted E"
    and "poll_interval_seconds m = Finite p"
    and "overhead_within E lo hi" and "0 < max p 0 + lo"
  shows "(timeout_seconds m \<le> 0 \<longrightarrow> timeout_elapsed E m w = Some 0)
       \<and> (0 < timeout_seconds m \<longrightarrow>
            (\<exists>d. timeout_elapsed E m w = Some d
               \<and> of_int (timeout_seconds m) \<le> d
               \<and> d < of_int (timeout_seconds m) + max p 0 + hi))"
proof -
  define m2 where "m2 = fst (before_poll E m w)"
  define w3 where "w3 = snd (before_poll E m w)"
  have cfg: "timeout_seconds m2 = timeout_seconds m"
    "poll_interval_seconds m2 = Finite p"
    unfolding m2_def by (simp_all add: before_poll_config assms(3))
  have ens: "ensure_authenticated E m w =
               map_option (\<lambda>(res, w4). (res, m2, w4)) (poll_loop E m2 (clock w3) w3)"
    unfolding m2_def w3_def using assms(1,2) by (rule ensure_authenticated_via_poll)
  have 1: "timeout_elapsed E m w = Some 0" if "timeout_seconds m \<le> 0"
  proof -
    from ensure_authenticated_expired
           [OF that initial_not_authenticated [OF assms(1)] assms(2)]
    show ?thesis by (simp add: timeout_elapsed_def case_prod_beta)
  qed
  have 2: "\<exists>d. timeout_elapsed E m w = Some d
               \<and> of_int (timeout_seconds m) \<le> d
               \<and> d < of_int (timeout_seconds m) + max p 0 + hi"
    if t: "0 < timeout_seconds m"
  proof -
    from poll_loop_raises [OF assms(1,2) cfg(2) assms(4,5), of "clock w3" w3] obtain w' where
      h: "poll_loop E m2 (clock w3) w3 = Some (Raise timeout_error, w')"
         "of_int (timeout_seconds m2) \<le> clock w' - clock w3"
         "if of_int (timeout_seconds m2) \<le> clock w3 - clock w3 then w' = w3
          else clock w' - clock w3 < of_int (timeout_seconds m2) + max p 0 + hi"
      by blast
    have "\<not> of_int (timeout_seconds m2) \<le> clock w3 - clock w3"
      using t cfg by simp
    with h(3) have "clock w' - clock w3 < of_int (timeout_seconds m2) + max p 0 + hi"
      by simp
    moreover have "timeout_elapsed E m w = Some (clock w' - clock w3)"
      unfolding timeout_elapsed_def ens h(1) by (simp add: w3_def)
    ultimately show ?thesis using h(2) cfg by auto
  qed
  from 1 2 show ?thesis by blast
qed

theorem timeout_within_one_interval_witness:
  "never_authenticated silent_env \<and> uninterrupted silent_env
   \<and> poll_interval_seconds (manager0 3 2) = Finite 2
   \<and> overhead_within silent_env 0 0 \<and> (0 :: rat) < max 2 0 + 0
   \<and> 0 < timeout_seconds (manager0 3 2)
   \<and> (\<exists>d. timeout_elapsed silent_env (manager0 3 2) fresh_world = Some d \<and> 3 \<le> d \<and> d < 5)"
proof -
  note na = silent_env_never_authenticated and un = silent_env_uninterrupted
    and ov = silent_env_overhead
  have f: "poll_interval_seconds (manager0 3 2) = Finite 2"
    and t: "0 < timeout_seconds (manager0 3 2)"
    by (simp_all add: manager0_def)
  have pos: "(0 :: rat) < max 2 0 + 0" by simp
  from timeout_within_one_interval [OF na un f ov pos, of fresh_world] t
  have "\<exists>d. timeout_elapsed silent_env (manager0 3 2) fresh_world = Some d \<and> 3 \<le> d \<and> d < 5"
    by (simp add: manager0_def)
  with na un f ov pos t show ?thesis by blast
qed
subsection \<open>One helper per coordinator\<close>
















end
